theory Spec2Isabelle
  imports Main "HOL-Library.Char_ord" "HOL-Library.List_Lexorder" "HOL-Library.Multiset"
begin

section \<open>Strings and runes\<close>

text \<open>
  A Go string is a sequence of bytes; it is modelled as a \<^typ>\<open>string\<close> (a list of 8-bit
  characters). The order on strings is the bytewise lexicographic order of Go's \<open><\<close>
  (a proper prefix is smaller). The version package reads strings one byte at a time and
  converts each byte to a rune (\<open>rune(s[i])\<close>), so every rune it sees is a code point
  in \<open>0..255\<close>; a rune is modelled as a natural number.
\<close>

type_synonym rune = nat

definition rune_of :: "char \<Rightarrow> rune" where
  "rune_of c = of_char c"

text \<open>
  Go's \<open>unicode.IsDigit\<close>, \<open>unicode.IsLetter\<close> and \<open>unicode.ToLower\<close> restricted to the
  code points \<open>0..255\<close> (the Latin-1 tables of the standard library): the decimal digits
  are \<open>0..9\<close>; the letters are \<open>A..Z\<close>, \<open>a..z\<close>, U+00AA, U+00B5, U+00BA, U+00C0..U+00D6,
  U+00D8..U+00F6 and U+00F8..U+00FF; lower-casing adds 32 to \<open>A..Z\<close>, U+00C0..U+00D6 and
  U+00D8..U+00DE.
\<close>

definition isDigit :: "rune \<Rightarrow> bool" where
  "isDigit r = (48 \<le> r \<and> r \<le> 57)"

definition isLetter :: "rune \<Rightarrow> bool" where
  "isLetter r =
     ((65 \<le> r \<and> r \<le> 90) \<or> (97 \<le> r \<and> r \<le> 122) \<or> r = 170 \<or> r = 181 \<or> r = 186 \<or>
      (192 \<le> r \<and> r \<le> 214) \<or> (216 \<le> r \<and> r \<le> 246) \<or> (248 \<le> r \<and> r \<le> 255))"

definition toLower :: "rune \<Rightarrow> rune" where
  "toLower r =
     (if (65 \<le> r \<and> r \<le> 90) \<or> (192 \<le> r \<and> r \<le> 214) \<or> (216 \<le> r \<and> r \<le> 222)
      then r + 32 else r)"

section \<open>Version comparison (package version)\<close>

subsection \<open>Character weights and runs\<close>

definition order :: "rune \<Rightarrow> int" where
  "order r =
     (if r = 0 then 0
      else if r = 126 then - 1
      else if isDigit r then int r
      else if isLetter r then int (toLower r) + 256
      else int r + 256)"

text \<open>\<open>nextRune(s, &i)\<close>: the rune read and the new value of the index.\<close>

definition nextRune :: "string \<Rightarrow> nat \<Rightarrow> rune \<times> nat" where
  "nextRune s i = (if i \<ge> length s then (0, i) else (rune_of (s ! i), i + 1))"

definition leadingNonDigits :: "string \<Rightarrow> string" where
  "leadingNonDigits s = takeWhile (\<lambda>c. \<not> isDigit (rune_of c)) s"

definition leadingDigits :: "string \<Rightarrow> string" where
  "leadingDigits s = takeWhile (\<lambda>c. isDigit (rune_of c)) s"

text \<open>The loop of \<open>compareNonDigits\<close>, with its two indices as arguments.\<close>

function compareNonDigits_loop :: "string \<Rightarrow> string \<Rightarrow> nat \<Rightarrow> nat \<Rightarrow> int" where
  "compareNonDigits_loop a b ia ib =
     (if ia < length a \<or> ib < length b then
        (let (ra, ia') = nextRune a ia;
             (rb, ib') = nextRune b ib;
             oa = order ra;
             ob = order rb
         in if oa \<noteq> ob then (if oa < ob then - 1 else 1)
            else if ra = 0 \<and> rb = 0 then 0
            else compareNonDigits_loop a b ia' ib')
      else 0)"
  by pat_completeness auto
termination
  by (relation "measure (\<lambda>(a, b, ia, ib). (length a - ia) + (length b - ib))")
     (auto simp: nextRune_def split: if_splits)

declare compareNonDigits_loop.simps [simp del]

definition compareNonDigits :: "string \<Rightarrow> string \<Rightarrow> int" where
  "compareNonDigits a b = compareNonDigits_loop a b 0 0"

text \<open>\<open>strings.TrimLeft(s, "0")\<close>.\<close>

definition trimLeftZeros :: "string \<Rightarrow> string" where
  "trimLeftZeros s = dropWhile (\<lambda>c. c = CHR ''0'') s"

definition compareDigits :: "string \<Rightarrow> string \<Rightarrow> int" where
  "compareDigits a0 b0 =
     (let a = trimLeftZeros a0; b = trimLeftZeros b0
      in if length a \<noteq> length b then (if length a < length b then - 1 else 1)
         else if a = b then 0
         else if a < b then - 1
         else 1)"

subsection \<open>Comparing one part\<close>

text \<open>
  The loop of \<open>comparePart\<close>. Each \<open>continue\<close> of the source is a recursive call on the
  shortened strings. The three tests after the digit branch, and the fall-through to the
  next iteration with both strings unchanged, are kept as the source has them; the
  termination proof shows that the fall-through is never taken.
\<close>

function comparePart :: "string \<Rightarrow> string \<Rightarrow> int" where
  "comparePart a b =
     (if length a > 0 \<or> length b > 0 then
        (if leadingNonDigits a \<noteq> [] \<or> leadingNonDigits b \<noteq> [] then
           (if compareNonDigits (leadingNonDigits a) (leadingNonDigits b) \<noteq> 0
            then compareNonDigits (leadingNonDigits a) (leadingNonDigits b)
            else comparePart (drop (length (leadingNonDigits a)) a)
                             (drop (length (leadingNonDigits b)) b))
         else if leadingDigits a \<noteq> [] \<or> leadingDigits b \<noteq> [] then
           (if compareDigits (leadingDigits a) (leadingDigits b) \<noteq> 0
            then compareDigits (leadingDigits a) (leadingDigits b)
            else comparePart (drop (length (leadingDigits a)) a)
                             (drop (length (leadingDigits b)) b))
         else if length a = 0 \<and> length b = 0 then 0
         else if length a = 0 then - 1
         else if length b = 0 then 1
         else comparePart a b)
      else 0)"
  by pat_completeness auto
termination
proof (relation "measure (\<lambda>(a, b). length a + length b)", goal_cases)
  case 1
  show ?case by simp
next
  case (2 a b)
  let ?n = "length (leadingNonDigits a)" and ?m = "length (leadingNonDigits b)"
  have "?n \<le> length a" "?m \<le> length b"
    by (simp_all add: leadingNonDigits_def length_takeWhile_le)
  moreover from 2 have "0 < ?n \<or> 0 < ?m"
    by simp
  ultimately have "length a - ?n + (length b - ?m) < length a + length b"
    by linarith
  then show ?case by simp
next
  case (3 a b)
  let ?n = "length (leadingDigits a)" and ?m = "length (leadingDigits b)"
  have "?n \<le> length a" "?m \<le> length b"
    by (simp_all add: leadingDigits_def length_takeWhile_le)
  moreover from 3 have "0 < ?n \<or> 0 < ?m"
    by simp
  ultimately have "length a - ?n + (length b - ?m) < length a + length b"
    by linarith
  then show ?case by simp
next
  case (4 a b)
  then show ?case
    by (cases a) (auto simp: leadingNonDigits_def leadingDigits_def split: if_splits)
qed

declare comparePart.simps [simp del]

subsection \<open>Epoch and revision\<close>

text \<open>
  \<open>strconv.Atoi\<close> in base 10 on a 64-bit platform: an optional sign, then at least one
  decimal digit and nothing else; a value outside the range of \<open>int\<close> is an error.
\<close>

definition digitsValue :: "string \<Rightarrow> nat" where
  "digitsValue ds = foldl (\<lambda>n c. n * 10 + (of_char c - 48)) 0 ds"

definition atoi :: "string \<Rightarrow> int option" where
  "atoi s =
     (case s of
        [] \<Rightarrow> None
      | c # r \<Rightarrow>
          (let neg = (c = CHR ''-'');
               ds = (if c = CHR ''-'' \<or> c = CHR ''+'' then r else s)
           in if ds = [] \<or> \<not> list_all (\<lambda>d. isDigit (rune_of d)) ds then None
              else let n = digitsValue ds
                   in if neg then (if n > 2 ^ 63 then None else Some (- int n))
                      else (if n \<ge> 2 ^ 63 then None else Some (int n))))"

definition splitEpoch :: "string \<Rightarrow> int \<times> string" where
  "splitEpoch s =
     (if CHR '':'' \<notin> set s then (0, s)
      else (case atoi (takeWhile (\<lambda>c. c \<noteq> CHR '':'') s) of
              None \<Rightarrow> (0, s)
            | Some epoch \<Rightarrow> (epoch, tl (dropWhile (\<lambda>c. c \<noteq> CHR '':'') s))))"

text \<open>\<open>strings.LastIndexByte\<close>: the index of the last occurrence, if there is one.\<close>

fun lastIndexByte :: "string \<Rightarrow> char \<Rightarrow> nat option" where
  "lastIndexByte [] c = None"
| "lastIndexByte (x # xs) c =
     (case lastIndexByte xs c of
        Some i \<Rightarrow> Some (Suc i)
      | None \<Rightarrow> if x = c then Some 0 else None)"

definition splitRevision :: "string \<Rightarrow> string \<times> string" where
  "splitRevision s =
     (case lastIndexByte s (CHR ''-'') of
        Some idx \<Rightarrow> (take idx s, drop (idx + 1) s)
      | None \<Rightarrow> (s, []))"

definition Compare :: "string \<Rightarrow> string \<Rightarrow> int" where
  "Compare a b =
     (let (ea, ra) = splitEpoch a;
          (eb, rb) = splitEpoch b
      in if ea \<noteq> eb then (if ea < eb then - 1 else 1)
         else let (ua, da) = splitRevision ra;
                  (ub, db) = splitRevision rb
              in if comparePart ua ub \<noteq> 0 then comparePart ua ub
                 else comparePart da db)"

section \<open>Standard-library helpers\<close>

text \<open>
  The functions of this section model the parts of Go's standard library that the packages
  below call. They work on bytes: a code point beyond ASCII is several bytes of UTF-8,
  and the helpers that Go defines on code points (\<open>strings.TrimSpace\<close>, \<open>strings.EqualFold\<close>,
  \<open>strings.ToLower\<close>, \<open>path.Match\<close>) are modelled on their ASCII behaviour.
\<close>

type_synonym bytes = string

subsection \<open>Package strings\<close>

definition hasPrefix :: "string \<Rightarrow> string \<Rightarrow> bool" where
  "hasPrefix s p = (take (length p) s = p)"

definition hasSuffix :: "string \<Rightarrow> string \<Rightarrow> bool" where
  "hasSuffix s p = (length p \<le> length s \<and> drop (length s - length p) s = p)"

definition trimPrefix :: "string \<Rightarrow> string \<Rightarrow> string" where
  "trimPrefix s p = (if hasPrefix s p then drop (length p) s else s)"

definition trimSuffix :: "string \<Rightarrow> string \<Rightarrow> string" where
  "trimSuffix s p = (if hasSuffix s p then take (length s - length p) s else s)"

text \<open>\<open>strings.Contains\<close>: the second string occurs in the first.\<close>

fun containsStr :: "string \<Rightarrow> string \<Rightarrow> bool" where
  "containsStr [] sub = (sub = [])"
| "containsStr (c # cs) sub = (hasPrefix (c # cs) sub \<or> containsStr cs sub)"

text \<open>\<open>strings.Split\<close> with a separator of one byte.\<close>

fun splitOn :: "char \<Rightarrow> string \<Rightarrow> string list" where
  "splitOn sep [] = [[]]"
| "splitOn sep (c # cs) =
     (if c = sep then [] # splitOn sep cs
      else (case splitOn sep cs of
              [] \<Rightarrow> [[c]]
            | w # ws \<Rightarrow> (c # w) # ws))"

text \<open>\<open>strings.Join\<close>.\<close>

fun joinWith :: "string \<Rightarrow> string list \<Rightarrow> string" where
  "joinWith sep [] = []"
| "joinWith sep [x] = x"
| "joinWith sep (x # y # ys) = x @ sep @ joinWith sep (y # ys)"

definition isSpace :: "char \<Rightarrow> bool" where
  "isSpace c = (c \<in> {CHR '' '', CHR 0x09, CHR 0x0A, CHR 0x0B, CHR 0x0C, CHR 0x0D})"

definition trimSpace :: "string \<Rightarrow> string" where
  "trimSpace s = rev (dropWhile isSpace (rev (dropWhile isSpace s)))"

text \<open>\<open>strings.TrimLeft(s, cutset)\<close>.\<close>

definition trimLeft :: "string \<Rightarrow> string \<Rightarrow> string" where
  "trimLeft s cutset = dropWhile (\<lambda>c. c \<in> set cutset) s"

definition asciiLower :: "char \<Rightarrow> char" where
  "asciiLower c =
     (if 65 \<le> (of_char c :: nat) \<and> (of_char c :: nat) \<le> 90
      then char_of (of_char c + (32 :: nat)) else c)"


definition equalFold :: "string \<Rightarrow> string \<Rightarrow> bool" where
  "equalFold s t = (map asciiLower s = map asciiLower t)"

text \<open>\<open>strings.IndexByte\<close> and \<open>strings.IndexAny\<close>: the first position, if there is one.\<close>

fun indexWhere :: "(char \<Rightarrow> bool) \<Rightarrow> string \<Rightarrow> nat option" where
  "indexWhere P [] = None"
| "indexWhere P (c # cs) =
     (if P c then Some 0 else map_option Suc (indexWhere P cs))"

definition indexByte :: "string \<Rightarrow> char \<Rightarrow> nat option" where
  "indexByte s c = indexWhere (\<lambda>x. x = c) s"

definition indexAny :: "string \<Rightarrow> string \<Rightarrow> nat option" where
  "indexAny s chars = indexWhere (\<lambda>x. x \<in> set chars) s"


subsection \<open>Package path/filepath (Unix)\<close>

text \<open>
  \<open>filepath.Clean\<close>: empty and \<open>.\<close> elements are dropped, a \<open>..\<close> removes the element before
  it (at the root it is dropped, at the start of a relative path it is kept), and the empty
  result is \<open>.\<close>.
\<close>

fun cleanStep :: "bool \<Rightarrow> string list \<Rightarrow> string \<Rightarrow> string list" where
  "cleanStep rooted stack elem =
     (if elem = [] \<or> elem = ''.'' then stack
      else if elem = ''..'' then
        (if stack \<noteq> [] \<and> last stack \<noteq> ''..'' then butlast stack
         else if rooted then stack
         else stack @ [''..''])
      else stack @ [elem])"

definition filepath_Clean :: "string \<Rightarrow> string" where
  "filepath_Clean path =
     (if path = [] then ''.''
      else let rooted = (hd path = CHR ''/'');
               out = (if rooted then ''/'' else []) @
                     joinWith ''/'' (foldl (cleanStep rooted) [] (splitOn (CHR ''/'') path))
           in if out = [] then ''.'' else out)"

text \<open>\<open>filepath.Join\<close> of two elements.\<close>

definition filepath_Join :: "string \<Rightarrow> string \<Rightarrow> string" where
  "filepath_Join a b =
     (if a \<noteq> [] then filepath_Clean (a @ ''/'' @ b)
      else if b \<noteq> [] then filepath_Clean b
      else [])"

text \<open>\<open>filepath.Dir\<close>: everything up to the last slash, cleaned.\<close>

definition filepath_Dir :: "string \<Rightarrow> string" where
  "filepath_Dir path =
     (case lastIndexByte path (CHR ''/'') of
        None \<Rightarrow> ''.''
      | Some i \<Rightarrow> filepath_Clean (take (i + 1) path))"

text \<open>\<open>filepath.Base\<close>: the last element, without trailing slashes.\<close>

definition filepath_Base :: "string \<Rightarrow> string" where
  "filepath_Base p =
     (if p = [] then ''.''
      else let q = rev (dropWhile (\<lambda>c. c = CHR ''/'') (rev p))
           in if q = [] then ''/''
              else (case lastIndexByte q (CHR ''/'') of
                      None \<Rightarrow> q
                    | Some i \<Rightarrow> drop (i + 1) q))"

subsection \<open>Shell patterns (\<open>path.Match\<close>)\<close>

text \<open>
  The pattern language of \<open>path.Match\<close>: \<open>*\<close> matches any sequence of non-slash bytes, \<open>?\<close>
  one non-slash byte, \<open>[...]\<close> one byte of a non-empty list of ranges (negated after \<open>^\<close>),
  \<open>\c\<close> the byte \<open>c\<close>, and any other byte itself. A pattern that does not follow this grammar
  is malformed (\<open>ErrBadPattern\<close>).
\<close>

datatype patItem =
    PStar
  | PAny
  | PLit char
  | PClass bool "(char \<times> char) list"

text \<open>
  \<open>getEsc\<close>: one possibly escaped byte of a character class. It fails at the end of the
  pattern, on \<open>-\<close> and \<open>]\<close>, on a lone backslash, and when nothing follows the byte.
\<close>

fun getEsc :: "string \<Rightarrow> (char \<times> string) option" where
  "getEsc [] = None"
| "getEsc (c # cs) =
     (if c = CHR ''-'' \<or> c = CHR '']'' then None
      else if c = CHR 0x5C then
        (case cs of
           [] \<Rightarrow> None
         | d # ds \<Rightarrow> if ds = [] then None else Some (d, ds))
      else if cs = [] then None else Some (c, cs))"

lemma getEsc_shorter: "getEsc s = Some (c, r) \<Longrightarrow> length r < length s"
  by (cases s) (auto split: if_splits list.splits)

text \<open>The ranges of a class, up to the closing bracket; the rest of the pattern.\<close>

function parseRanges :: "nat \<Rightarrow> string \<Rightarrow> ((char \<times> char) list \<times> string) option" where
  "parseRanges nrange chunk =
     (if chunk \<noteq> [] \<and> hd chunk = CHR '']'' \<and> nrange > 0 then Some ([], tl chunk)
      else (case getEsc chunk of
              None \<Rightarrow> None
            | Some (lo, rest) \<Rightarrow>
                (if hd rest = CHR ''-'' then
                   (case getEsc (tl rest) of
                      None \<Rightarrow> None
                    | Some (hi, rest') \<Rightarrow>
                        (case parseRanges (nrange + 1) rest' of
                           None \<Rightarrow> None
                         | Some (rs, after) \<Rightarrow> Some ((lo, hi) # rs, after)))
                 else
                   (case parseRanges (nrange + 1) rest of
                      None \<Rightarrow> None
                    | Some (rs, after) \<Rightarrow> Some ((lo, lo) # rs, after)))))"
  by pat_completeness auto
termination
  by (relation "measure (\<lambda>(n, chunk). length chunk)")
     (auto dest!: getEsc_shorter simp: less_Suc_eq_le dest: less_trans)

declare parseRanges.simps [simp del]

lemma parseRanges_shorter: "parseRanges n s = Some (rs, r) \<Longrightarrow> length r \<le> length s"
proof (induction n s arbitrary: rs r rule: parseRanges.induct)
  case (1 nrange chunk)
  show ?case
  proof (cases "chunk \<noteq> [] \<and> hd chunk = CHR '']'' \<and> nrange > 0")
    case True
    with "1.prems" show ?thesis
      by (subst (asm) parseRanges.simps) auto
  next
    case False
    from "1.prems" False obtain lo rest where g: "getEsc chunk = Some (lo, rest)"
      by (subst (asm) parseRanges.simps) (auto split: option.splits)
    then have lr: "length rest < length chunk" by (rule getEsc_shorter)
    show ?thesis
    proof (cases "hd rest = CHR ''-''")
      case True
      from "1.prems" False g True obtain hi rest' rs' where
        g': "getEsc (tl rest) = Some (hi, rest')" and
        p: "parseRanges (nrange + 1) rest' = Some (rs', r)"
        by (subst (asm) parseRanges.simps) (auto split: option.splits)
      from "1.IH"(1) [OF False g refl True g' refl p] have "length r \<le> length rest'" .
      moreover have "length rest' < length (tl rest)" using g' by (rule getEsc_shorter)
      ultimately show ?thesis using lr by simp
    next
      case F: False
      from "1.prems" False g F obtain rs' where
        p: "parseRanges (nrange + 1) rest = Some (rs', r)"
        by (subst (asm) parseRanges.simps) (auto split: option.splits)
      from "1.IH"(2) [OF False g refl F p] have "length r \<le> length rest" .
      then show ?thesis using lr by simp
    qed
  qed
qed

text \<open>The items of a pattern, or nothing when the pattern is malformed.\<close>

function parsePattern :: "string \<Rightarrow> patItem list option" where
  "parsePattern [] = Some []"
| "parsePattern (c # cs) =
     (if c = CHR ''*'' then map_option (\<lambda>p. PStar # p) (parsePattern cs)
      else if c = CHR ''?'' then map_option (\<lambda>p. PAny # p) (parsePattern cs)
      else if c = CHR 0x5C then
        (case cs of
           [] \<Rightarrow> None
         | d # ds \<Rightarrow> map_option (\<lambda>p. PLit d # p) (parsePattern ds))
      else if c = CHR ''['' then
        (let negated = (cs \<noteq> [] \<and> hd cs = CHR ''^'');
             body = (if negated then tl cs else cs)
         in case parseRanges 0 body of
              None \<Rightarrow> None
            | Some (rs, after) \<Rightarrow> map_option (\<lambda>p. PClass negated rs # p) (parsePattern after))
      else map_option (\<lambda>p. PLit c # p) (parsePattern cs))"
  by pat_completeness auto
termination
proof (relation "measure length", goal_cases)
  case (5 c cs negated body x2 rs after)
  then have "length after \<le> length body"
    using parseRanges_shorter [of 0 body rs after] by simp
  moreover from 5 have "length body \<le> length cs" by (auto split: if_splits)
  ultimately show ?case by simp
qed auto

fun inRanges :: "char \<Rightarrow> (char \<times> char) list \<Rightarrow> bool" where
  "inRanges c [] = False"
| "inRanges c ((lo, hi) # rs) = ((lo \<le> c \<and> c \<le> hi) \<or> inRanges c rs)"

fun matchItems :: "patItem list \<Rightarrow> string \<Rightarrow> bool" where
  "matchItems [] name = (name = [])"
| "matchItems (PStar # p) [] = matchItems p []"
| "matchItems (PStar # p) (c # cs) =
     (matchItems p (c # cs) \<or> (c \<noteq> CHR ''/'' \<and> matchItems (PStar # p) cs))"
| "matchItems (PAny # p) [] = False"
| "matchItems (PAny # p) (c # cs) = (c \<noteq> CHR ''/'' \<and> matchItems p cs)"
| "matchItems (PLit d # p) [] = False"
| "matchItems (PLit d # p) (c # cs) = (c = d \<and> matchItems p cs)"
| "matchItems (PClass negated rs # p) [] = False"
| "matchItems (PClass negated rs # p) (c # cs) = (inRanges c rs \<noteq> negated \<and> matchItems p cs)"

text \<open>\<open>path.Match(pattern, name)\<close>: \<open>None\<close> is \<open>ErrBadPattern\<close>.\<close>

definition path_Match :: "string \<Rightarrow> string \<Rightarrow> bool option" where
  "path_Match pattern name = map_option (\<lambda>p. matchItems p name) (parsePattern pattern)"

section \<open>Errors\<close>

text \<open>
  Every error value that the modelled code creates, one constructor for each place that
  creates it. \<open>ErrOS\<close> stands for an error of the operating system or of the HTTP
  transport, whose text the program does not inspect; a wrapping error (\<open>%w\<close>) keeps the
  error it wraps.
\<close>

datatype error =
    ErrOS string
  | ErrOpenConfig string error
  | ErrOptionExpects string nat
  | ErrDestExpects string nat
  | ErrSrcExpects string nat string
  | ErrArchExpects string nat
  | ErrArchPriority string nat string
  | ErrIncludeExpects string nat
  | ErrInvalidGlob string nat error
  | ErrUnsupportedDirective string nat string
  | ErrReadConfig string error
  | ErrNilConfig
  | ErrStatusPathNotConfigured
  | ErrCacheDirNotConfigured
  | ErrCreateCacheDir error
  | ErrUnknownDestination string
  | ErrNilClient
  | ErrUnexpectedStatus string string
  | ErrPrepareDirectory error
  | ErrWriteTempFile error
  | ErrCommitDownload error
  | ErrContinuationBeforeKey string
  | ErrMalformedControlLine string
  | ErrTooLong
  | ErrConfigRequired
  | ErrDownloaderRequired
  | ErrFeedEmptyURI string
  | ErrFetchFeed string error
  | ErrDecompress string error
  | ErrReadFeed string error
  | ErrParseFeed string error
  | ErrCacheFeed string error
  | ErrReadStatus error
  | ErrParseStatus error
  | ErrNotFound
  | ErrIndexesNotLoaded
  | ErrNoPatterns
  | ErrPackageNotFound string
  | ErrNotAvailable string
  | ErrNoFilename string

section \<open>Control files (package format)\<close>

text \<open>
  A Go map is modelled as an association list with distinct keys. Go leaves the iteration
  order of a map unspecified; the model iterates in the order of the list, which is the
  order of first insertion. A result that depends on the iteration order is therefore the
  result of one possible run.
\<close>

type_synonym ('k, 'v) gomap = "('k \<times> 'v) list"

definition mapGet :: "('k, 'v) gomap \<Rightarrow> 'k \<Rightarrow> 'v option" where
  "mapGet m k = map_of m k"

fun mapPut :: "'k \<Rightarrow> 'v \<Rightarrow> ('k, 'v) gomap \<Rightarrow> ('k, 'v) gomap" where
  "mapPut k v [] = [(k, v)]"
| "mapPut k v ((k', v') # m) = (if k' = k then (k, v) # m else (k', v') # mapPut k v m)"

record Paragraph =
  Fields :: "(string, string) gomap"

text \<open>\<open>p.Fields[key]\<close>: the empty string when the key is absent.\<close>

definition fieldOf :: "(string, string) gomap \<Rightarrow> string \<Rightarrow> string" where
  "fieldOf m k = (case mapGet m k of None \<Rightarrow> [] | Some v \<Rightarrow> v)"

definition Value :: "Paragraph \<Rightarrow> string \<Rightarrow> string" where
  "Value p key =
     (case find (\<lambda>(k, v). equalFold k key) (Fields p) of
        Some (k, v) \<Rightarrow> v
      | None \<Rightarrow> [])"

definition Keys :: "Paragraph \<Rightarrow> string list" where
  "Keys p = sort (map fst (Fields p))"

text \<open>
  The line scanner (\<open>bufio.Scanner\<close> with its default split function): the input is cut at
  newlines, a final line without newline counts when it is not empty, a trailing carriage
  return is dropped from each line, and the scan stops with \<open>ErrTooLong\<close> at the first line
  that does not fit the buffer. The buffer holds 64 KiB by default (\<open>MaxScanTokenSize\<close>);
  \<open>ParseControl\<close> raises it to 10 MiB (\<open>maxTokenSize\<close>). The result is the lines scanned
  and whether the scan stopped at a line that was too long.
\<close>

definition MaxScanTokenSize :: nat where
  "MaxScanTokenSize = 64 * 1024"

definition maxTokenSize :: nat where
  "maxTokenSize = 10 * 1024 * 1024"

definition dropCR :: "string \<Rightarrow> string" where
  "dropCR s = (if s \<noteq> [] \<and> last s = CHR 0x0D then butlast s else s)"

definition rawLines :: "bytes \<Rightarrow> string list" where
  "rawLines data =
     (let parts = splitOn (CHR 0x0A) data
      in if last parts = [] then butlast parts else parts)"

definition scanLines :: "nat \<Rightarrow> bytes \<Rightarrow> string list \<times> bool" where
  "scanLines limit data =
     (let ls = rawLines data;
          fits = (\<lambda>l. length l < limit)
      in (map dropCR (takeWhile fits ls), \<not> list_all fits ls))"

text \<open>The closure \<open>flush\<close> of \<open>ParseControl\<close>, on the current fields and the paragraphs so far.\<close>

definition flush :: "(string, string) gomap \<Rightarrow> Paragraph list \<Rightarrow> Paragraph list" where
  "flush current paragraphs =
     (if length current = 0 then paragraphs else paragraphs @ [\<lparr>Fields = current\<rparr>])"

text \<open>
  The loop of \<open>ParseControl\<close> over the scanned lines. Its state is the fields of the
  current paragraph, the last key, and the paragraphs read so far.
\<close>

fun controlLoop ::
  "string list \<Rightarrow> (string, string) gomap \<Rightarrow> string \<Rightarrow> Paragraph list \<Rightarrow>
   error + ((string, string) gomap \<times> Paragraph list)" where
  "controlLoop [] current lastKey paragraphs = Inr (current, paragraphs)"
| "controlLoop (line # ls) current lastKey paragraphs =
     (if line = [] then controlLoop ls [] [] (flush current paragraphs)
      else if hasPrefix line '' '' \<or> hasPrefix line [CHR 0x09] then
        (if lastKey = [] then Inl (ErrContinuationBeforeKey line)
         else controlLoop ls
                (mapPut lastKey
                   (fieldOf current lastKey @ [CHR 0x0A] @ trimLeft line [CHR '' '', CHR 0x09])
                   current)
                lastKey paragraphs)
      else (case indexByte line (CHR '':'') of
              None \<Rightarrow> Inl (ErrMalformedControlLine line)
            | Some colon \<Rightarrow>
                (let key = trimSpace (take colon line);
                     value = trimSpace (drop (colon + 1) line)
                 in controlLoop ls (mapPut key value current) key paragraphs)))"

definition ParseControl :: "bytes \<Rightarrow> error + Paragraph list" where
  "ParseControl data =
     (let (ls, tooLong) = scanLines maxTokenSize data
      in case controlLoop ls [] [] [] of
           Inl e \<Rightarrow> Inl e
         | Inr (current, paragraphs) \<Rightarrow>
             if tooLong then Inl ErrTooLong else Inr (flush current paragraphs))"

section \<open>Configuration (package config)\<close>

record Feed =
  feed_Name :: string
  feed_URI :: string
  feed_Type :: string

record Destination =
  dest_Name :: string
  dest_Path :: string

record Architecture =
  arch_Name :: string
  arch_Priority :: int

record Config =
  Options :: "string \<rightharpoonup> string"
  Feeds :: "Feed list"
  Destinations :: "Destination list"
  Includes :: "string list"
  Architectures :: "Architecture list"

text \<open>
  The methods of \<open>*Config\<close> test their receiver for \<open>nil\<close>; a pointer to a configuration is
  a \<^typ>\<open>Config option\<close>, with \<open>None\<close> for \<open>nil\<close>.
\<close>

definition FindOption :: "Config option \<Rightarrow> string \<Rightarrow> string \<Rightarrow> string" where
  "FindOption c key fallback =
     (case c of
        None \<Rightarrow> fallback
      | Some cfg \<Rightarrow> (case Options cfg key of Some v \<Rightarrow> v | None \<Rightarrow> fallback))"

definition StatusPath :: "Config option \<Rightarrow> error + string" where
  "StatusPath c =
     (case c of
        None \<Rightarrow> Inl ErrNilConfig
      | Some cfg \<Rightarrow>
          (if FindOption c ''status'' [] \<noteq> [] then Inr (FindOption c ''status'' [])
           else (case find (\<lambda>dest. dest_Name dest = ''root'') (Destinations cfg) of
                   Some dest \<Rightarrow> Inr (filepath_Join (dest_Path dest) ''usr/lib/opkg/status'')
                 | None \<Rightarrow> Inl ErrStatusPathNotConfigured)))"

definition CacheDir :: "Config option \<Rightarrow> string" where
  "CacheDir c =
     (case c of
        None \<Rightarrow> []
      | Some cfg \<Rightarrow>
          (if FindOption c ''cache_dir'' [] \<noteq> [] then FindOption c ''cache_dir'' []
           else if FindOption c ''tmp_dir'' [] \<noteq> [] then FindOption c ''tmp_dir'' []
           else ''/tmp''))"

definition ResolveDest :: "Config option \<Rightarrow> string \<Rightarrow> error + string" where
  "ResolveDest c name =
     (case c of
        None \<Rightarrow> Inl ErrNilConfig
      | Some cfg \<Rightarrow>
          (case find (\<lambda>dest. dest_Name dest = name) (Destinations cfg) of
             Some dest \<Rightarrow> Inr (dest_Path dest)
           | None \<Rightarrow> Inl (ErrUnknownDestination name)))"

section \<open>The environment\<close>

text \<open>
  What the program does to the outside world is recorded as a list of file-system
  operations, in the order in which they are attempted. What the outside world answers is
  a parameter of the model: the outcome of an HTTP request, the result of decompressing
  gzip data, the outcome of opening and reading a file (the open error, or the bytes read
  and the read error that ended the reading, if any), the files that a glob pattern
  matches, the failure (if any) of a file-system operation, and the clock. The program does not look inside the errors it gets from there, except for
  \<open>errors.Is(err, os.ErrNotExist)\<close>.
\<close>

text \<open>The permission bits \<open>0o755\<close>, \<open>0o644\<close> and \<open>fs.ModePerm\<close> (\<open>0o777\<close>).\<close>

definition mode_0755 :: nat where
  "mode_0755 = 7 * 64 + 5 * 8 + 5"

definition mode_0644 :: nat where
  "mode_0644 = 6 * 64 + 4 * 8 + 4"

definition ModePerm :: nat where
  "ModePerm = 7 * 64 + 7 * 8 + 7"

datatype fsop =
    MkdirAll string nat
  | WriteFile string bytes nat
  | Rename string string

record Response =
  StatusCode :: nat
  Status :: string
  Body :: "error + bytes"

datatype gzipResult =
    GzBadHeader error
  | GzReadError error
  | GzData bytes

record Env =
  httpDo :: "string \<Rightarrow> error + Response"
  gunzip :: "bytes \<Rightarrow> gzipResult"
  openFile :: "string \<Rightarrow> error + (bytes \<times> error option)"
  glob :: "string \<Rightarrow> error + string list"
  notExist :: "error \<Rightarrow> bool"
  fsFail :: "fsop \<Rightarrow> error option"
  timeNow :: "Feed \<Rightarrow> nat"

text \<open>\<open>os.ReadFile\<close>: the whole content, or the error of opening or reading.\<close>

definition os_ReadFile :: "Env \<Rightarrow> string \<Rightarrow> error + bytes" where
  "os_ReadFile env name =
     (case openFile env name of
        Inl err \<Rightarrow> Inl err
      | Inr (data, Some err) \<Rightarrow> Inl err
      | Inr (data, None) \<Rightarrow> Inr data)"

text \<open>
  \<open>errors.Is(err, os.ErrNotExist)\<close>: the test looks through the errors that wrap another
  error with \<open>%w\<close>; whether an error of the operating system is "file does not exist" is
  the environment's answer.
\<close>

fun isNotExist :: "Env \<Rightarrow> error \<Rightarrow> bool" where
  "isNotExist env (ErrOS s) = notExist env (ErrOS s)"
| "isNotExist env (ErrOpenConfig p e) = isNotExist env e"
| "isNotExist env (ErrInvalidGlob p n e) = isNotExist env e"
| "isNotExist env (ErrReadConfig p e) = isNotExist env e"
| "isNotExist env (ErrCreateCacheDir e) = isNotExist env e"
| "isNotExist env (ErrPrepareDirectory e) = isNotExist env e"
| "isNotExist env (ErrWriteTempFile e) = isNotExist env e"
| "isNotExist env (ErrCommitDownload e) = isNotExist env e"
| "isNotExist env (ErrFetchFeed n e) = isNotExist env e"
| "isNotExist env (ErrDecompress n e) = isNotExist env e"
| "isNotExist env (ErrReadFeed n e) = isNotExist env e"
| "isNotExist env (ErrParseFeed n e) = isNotExist env e"
| "isNotExist env (ErrCacheFeed n e) = isNotExist env e"
| "isNotExist env (ErrReadStatus e) = isNotExist env e"
| "isNotExist env (ErrParseStatus e) = isNotExist env e"
| "isNotExist env e = False"

section \<open>Downloads (package downloader)\<close>

record Client =
  timeout :: nat

text \<open>\<open>downloader.New\<close>: the timeout in seconds, 30 when none is given.\<close>

definition downloader_New :: "nat \<Rightarrow> Client option" where
  "downloader_New t = Some \<lparr>timeout = (if t = 0 then 30 else t)\<rparr>"

definition GetBytes :: "Env \<Rightarrow> Client option \<Rightarrow> string \<Rightarrow> error + bytes" where
  "GetBytes env c url =
     (case c of
        None \<Rightarrow> Inl ErrNilClient
      | Some cl \<Rightarrow>
          (case httpDo env url of
             Inl e \<Rightarrow> Inl e
           | Inr resp \<Rightarrow>
               if StatusCode resp \<noteq> 200 then Inl (ErrUnexpectedStatus (Status resp) url)
               else Body resp))"

definition DownloadToFile ::
  "Env \<Rightarrow> Client option \<Rightarrow> string \<Rightarrow> string \<Rightarrow> fsop list \<times> error option" where
  "DownloadToFile env c url path =
     (case GetBytes env c url of
        Inl e \<Rightarrow> ([], Some e)
      | Inr data \<Rightarrow>
          (let mk = MkdirAll (filepath_Dir path) mode_0755
           in case fsFail env mk of
                Some e \<Rightarrow> ([mk], Some (ErrPrepareDirectory e))
              | None \<Rightarrow>
                  (let tmp = path @ ''.tmp'';
                       wr = WriteFile tmp data mode_0644
                   in case fsFail env wr of
                        Some e \<Rightarrow> ([mk, wr], Some (ErrWriteTempFile e))
                      | None \<Rightarrow>
                          (let mv = Rename tmp path
                           in case fsFail env mv of
                                Some e \<Rightarrow> ([mk, wr, mv], Some (ErrCommitDownload e))
                              | None \<Rightarrow> ([mk, wr, mv], None)))))"

section \<open>Feed indexes (package repo)\<close>

record Package =
  pkg_Name :: string
  pkg_Version :: string
  pkg_Architecture :: string
  pkg_Description :: string
  pkg_Filename :: string
  pkg_Size :: string
  pkg_Feed :: Feed
  pkg_Raw :: Paragraph

record Index =
  idx_Feed :: Feed
  Packages :: "(string, Package) gomap"
  Updated :: nat

text \<open>\<open>osWriteFile\<close>, which is \<open>os.WriteFile\<close>: one write to the named file.\<close>

definition osWriteFile :: "Env \<Rightarrow> string \<Rightarrow> bytes \<Rightarrow> nat \<Rightarrow> fsop list \<times> error option" where
  "osWriteFile env name data perm = ([WriteFile name data perm], fsFail env (WriteFile name data perm))"

text \<open>The loop of \<open>fetchFeed\<close> over the two URLs: the first answer without error, or the last error.\<close>

fun fetchUrls :: "Env \<Rightarrow> Client option \<Rightarrow> string list \<Rightarrow> error + bytes \<Rightarrow> error + bytes" where
  "fetchUrls env client [] res = res"
| "fetchUrls env client (url # urls) res =
     (case GetBytes env client url of
        Inr data \<Rightarrow> Inr data
      | Inl e \<Rightarrow> fetchUrls env client urls (Inl e))"

text \<open>The loop of \<open>fetchFeed\<close> over the paragraphs of the control file.\<close>

fun indexParagraphs :: "Feed \<Rightarrow> Paragraph list \<Rightarrow> (string, Package) gomap \<Rightarrow> (string, Package) gomap" where
  "indexParagraphs feed [] packages = packages"
| "indexParagraphs feed (paragraph # ps) packages =
     (let name = Value paragraph ''Package''
      in if name = [] then indexParagraphs feed ps packages
         else indexParagraphs feed ps
                (mapPut name
                   \<lparr>pkg_Name = name,
                    pkg_Version = Value paragraph ''Version'',
                    pkg_Architecture = Value paragraph ''Architecture'',
                    pkg_Description = Value paragraph ''Description'',
                    pkg_Filename = Value paragraph ''Filename'',
                    pkg_Size = Value paragraph ''Size'',
                    pkg_Feed = feed,
                    pkg_Raw = paragraph\<rparr>
                   packages))"

definition fetchFeed ::
  "Env \<Rightarrow> Feed \<Rightarrow> string \<Rightarrow> Client option \<Rightarrow> fsop list \<times> (error + Index)" where
  "fetchFeed env feed cacheDir client =
     (if feed_URI feed = [] then ([], Inl (ErrFeedEmptyURI (feed_Name feed)))
      else
        let base = trimSuffix (feed_URI feed) ''/'';
            urls = [base @ ''/Packages.gz'', base @ ''/Packages'']
        in case fetchUrls env client urls (Inr []) of
             Inl err \<Rightarrow> ([], Inl (ErrFetchFeed (feed_Name feed) err))
           | Inr fetched \<Rightarrow>
               (case (if hasPrefix fetched [CHR 0x1F, CHR 0x8B] then gunzip env fetched
                      else GzData fetched) of
                  GzBadHeader err \<Rightarrow> ([], Inl (ErrDecompress (feed_Name feed) err))
                | GzReadError err \<Rightarrow> ([], Inl (ErrReadFeed (feed_Name feed) err))
                | GzData data \<Rightarrow>
                    (case ParseControl data of
                       Inl err \<Rightarrow> ([], Inl (ErrParseFeed (feed_Name feed) err))
                     | Inr paragraphs \<Rightarrow>
                         (let index = \<lparr>idx_Feed = feed,
                                       Packages = indexParagraphs feed paragraphs [],
                                       Updated = timeNow env feed\<rparr>
                          in if cacheDir \<noteq> [] then
                               (let path = filepath_Join cacheDir (feed_Name feed @ ''.Packages'')
                                in case osWriteFile env path data mode_0644 of
                                     (ops, Some err) \<Rightarrow> (ops, Inl (ErrCacheFeed (feed_Name feed) err))
                                   | (ops, None) \<Rightarrow> (ops, Inr index))
                             else ([], Inr index)))))"

text \<open>
  \<open>Update\<close> starts one goroutine for each feed and waits for all of them. Each goroutine
  runs \<open>fetchFeed\<close> and then, holding the mutex, either records its error when it is the
  first one or appends its index to the result. What \<open>Update\<close> returns depends on the
  goroutines only through the order in which they take the mutex. That order is the
  parameter \<open>sched\<close>: a permutation of the positions \<open>0..<n\<close> of the \<open>n\<close> feeds. (A list
  that is not such a permutation stands for the declaration order.) The file-system
  operations are returned for each goroutine, in that order; how the operations of
  different goroutines interleave is not modelled.
\<close>

definition completionOrder :: "nat list \<Rightarrow> 'a list \<Rightarrow> 'a list" where
  "completionOrder sched feeds =
     (if sort sched = [0..<length feeds] then map (\<lambda>i. feeds ! i) sched else feeds)"

text \<open>The critical sections, in the order in which they run.\<close>

fun collect :: "(error + Index) list \<Rightarrow> Index list \<Rightarrow> error option \<Rightarrow> Index list \<times> error option" where
  "collect [] result firstErr = (result, firstErr)"
| "collect (Inl err # outcomes) result firstErr =
     collect outcomes result (if firstErr = None then Some err else firstErr)"
| "collect (Inr idx # outcomes) result firstErr =
     collect outcomes (result @ [idx]) firstErr"

definition Update ::
  "Env \<Rightarrow> nat list \<Rightarrow> Config option \<Rightarrow> string \<Rightarrow> Client option \<Rightarrow>
   fsop list list \<times> (error + Index list)" where
  "Update env sched cfg cacheDir client =
     (case cfg of
        None \<Rightarrow> ([], Inl ErrConfigRequired)
      | Some c \<Rightarrow>
          (if client = None then ([], Inl ErrDownloaderRequired)
           else
             let runs = map (\<lambda>feed. fetchFeed env feed cacheDir client)
                            (completionOrder sched (Feeds c))
             in case collect (map snd runs) [] None of
                  (result, Some firstErr) \<Rightarrow> (map fst runs, Inl firstErr)
                | (result, None) \<Rightarrow> (map fst runs, Inr result)))"

record IndexSet =
  indexes :: "Index list"

definition NewIndexSet :: "Index list \<Rightarrow> IndexSet" where
  "NewIndexSet idxs = \<lparr>indexes = idxs\<rparr>"

fun findInIndexes :: "Index list \<Rightarrow> string \<Rightarrow> Package option" where
  "findInIndexes [] name = None"
| "findInIndexes (idx # idxs) name =
     (case mapGet (Packages idx) name of
        Some pkg \<Rightarrow> Some pkg
      | None \<Rightarrow> findInIndexes idxs name)"

text \<open>\<open>Find\<close>: \<open>None\<close> stands for the result \<open>(Package{}, false)\<close>.\<close>

definition Find :: "IndexSet \<Rightarrow> string \<Rightarrow> Package option" where
  "Find s name = findInIndexes (indexes s) name"

definition All :: "IndexSet \<Rightarrow> Package list" where
  "All s = concat (map (\<lambda>idx. map snd (Packages idx)) (indexes s))"

section \<open>The status database (package pkgdb)\<close>

record Entry =
  entry_Name :: string
  entry_Version :: string
  entry_Architecture :: string
  entry_Status :: string
  entry_Raw :: Paragraph

record Status =
  st_path :: string
  byName :: "(string, Entry) gomap"

fun loadParagraphs :: "Paragraph list \<Rightarrow> (string, Entry) gomap \<Rightarrow> (string, Entry) gomap" where
  "loadParagraphs [] entries = entries"
| "loadParagraphs (paragraph # ps) entries =
     (let name = Value paragraph ''Package''
      in if name = [] then loadParagraphs ps entries
         else loadParagraphs ps
                (mapPut name
                   \<lparr>entry_Name = name,
                    entry_Version = Value paragraph ''Version'',
                    entry_Architecture = Value paragraph ''Architecture'',
                    entry_Status = Value paragraph ''Status'',
                    entry_Raw = paragraph\<rparr>
                   entries))"

definition pkgdb_Load :: "Env \<Rightarrow> string \<Rightarrow> error + Status" where
  "pkgdb_Load env p =
     (case os_ReadFile env p of
        Inl err \<Rightarrow> Inl (ErrReadStatus err)
      | Inr data \<Rightarrow>
          (case ParseControl data of
             Inl err \<Rightarrow> Inl (ErrParseStatus err)
           | Inr paragraphs \<Rightarrow> Inr \<lparr>st_path = p, byName = loadParagraphs paragraphs []\<rparr>))"

definition Empty :: Status where
  "Empty = \<lparr>st_path = [], byName = []\<rparr>"

definition Installed :: "Status \<Rightarrow> string \<Rightarrow> bool" where
  "Installed s name =
     (case mapGet (byName s) name of
        None \<Rightarrow> False
      | Some entry \<Rightarrow> containsStr (entry_Status entry) ''installed'')"

text \<open>
  \<open>Entries\<close>: all entries, sorted by name. The names are the keys of the map, so no two
  entries have the same name and the sorted list does not depend on how \<open>sort.Slice\<close>
  orders equal elements.
\<close>

definition Entries :: "Status \<Rightarrow> Entry list" where
  "Entries s = sort_key entry_Name (map snd (byName s))"


section \<open>Loading the configuration (\<open>config.Load\<close>)\<close>

text \<open>
  \<open>fields\<close> (here \<open>lineFields\<close>, since every record has a function \<open>fields\<close>): the tokens of
  a line. Blanks separate tokens except between double quotes; the quotes themselves are
  dropped.
\<close>

fun fieldsLoop :: "string \<Rightarrow> string \<Rightarrow> bool \<Rightarrow> string list \<Rightarrow> string list" where
  "fieldsLoop [] current inQuote result =
     (if length current > 0 then result @ [current] else result)"
| "fieldsLoop (ch # line) current inQuote result =
     (if ch = CHR 0x22 then fieldsLoop line current (\<not> inQuote) result
      else if ch = CHR '' '' \<or> ch = CHR 0x09 then
        (if inQuote then fieldsLoop line (current @ [ch]) inQuote result
         else if length current > 0 then fieldsLoop line [] inQuote (result @ [current])
         else fieldsLoop line current inQuote result)
      else fieldsLoop line (current @ [ch]) inQuote result)"

definition lineFields :: "string \<Rightarrow> string list" where
  "lineFields line = fieldsLoop line [] False []"

text \<open>
  The \<open>switch\<close> on the first token, for every directive but \<open>include\<close>: the new
  configuration, or the error that names the file and the line.
\<close>

definition directive :: "string \<Rightarrow> nat \<Rightarrow> string list \<Rightarrow> Config \<Rightarrow> error + Config" where
  "directive p lineNo tokens cfg =
     (if hd tokens = ''option'' then
        (if length tokens < 3 then Inl (ErrOptionExpects p lineNo)
         else Inr (cfg\<lparr>Options := (Options cfg)(tokens ! 1 \<mapsto> joinWith '' '' (drop 2 tokens))\<rparr>))
      else if hd tokens = ''dest'' then
        (if length tokens < 3 then Inl (ErrDestExpects p lineNo)
         else Inr (cfg\<lparr>Destinations := Destinations cfg @
                      [\<lparr>dest_Name = tokens ! 1, dest_Path = tokens ! 2\<rparr>]\<rparr>))
      else if hd tokens = ''src'' \<or> hd tokens = ''src/gz'' \<or> hd tokens = ''src/sig'' then
        (if length tokens < 3 then Inl (ErrSrcExpects p lineNo (hd tokens))
         else Inr (cfg\<lparr>Feeds := Feeds cfg @
                      [\<lparr>feed_Name = tokens ! 1, feed_URI = tokens ! 2, feed_Type = hd tokens\<rparr>]\<rparr>))
      else if hd tokens = ''arch'' then
        (if length tokens < 2 then Inl (ErrArchExpects p lineNo)
         else if length tokens \<ge> 3 then
           (case atoi (tokens ! 2) of
              None \<Rightarrow> Inl (ErrArchPriority p lineNo (tokens ! 2))
            | Some prio \<Rightarrow>
                Inr (cfg\<lparr>Architectures := Architectures cfg @
                        [\<lparr>arch_Name = tokens ! 1, arch_Priority = prio\<rparr>]\<rparr>))
         else Inr (cfg\<lparr>Architectures := Architectures cfg @
                      [\<lparr>arch_Name = tokens ! 1, arch_Priority = 0\<rparr>]\<rparr>))
      else if length tokens \<ge> 2 then
        Inr (cfg\<lparr>Options := (Options cfg)(hd tokens \<mapsto> joinWith '' '' (drop 1 tokens))\<rparr>)
      else if CHR ''='' \<in> set (hd tokens) \<and> length tokens = 1 then
        Inr (cfg\<lparr>Options := (Options cfg)
               (trimSpace (takeWhile (\<lambda>c. c \<noteq> CHR ''='') (hd tokens)) \<mapsto>
                trimSpace (tl (dropWhile (\<lambda>c. c \<noteq> CHR ''='') (hd tokens))))\<rparr>)
      else Inl (ErrUnsupportedDirective p lineNo (hd tokens)))"

text \<open>
  The closure \<open>load\<close> of \<open>Load\<close>, with the configuration and the set of visited paths as its
  state; \<open>loadLines\<close> is its loop over the lines of a file and \<open>loadMatches\<close> its loop over
  the files that an \<open>include\<close> pattern matches. A file includes files that include files:
  the depth of this nesting is bounded by the first argument, and \<open>None\<close> means that the
  bound was too small. (The guard on visited paths ends the recursion once every file
  that can be opened was visited.)
\<close>

record LoadState =
  ls_cfg :: Config
  ls_visited :: "string list"

fun load :: "Env \<Rightarrow> nat \<Rightarrow> string \<Rightarrow> LoadState \<Rightarrow> (error + LoadState) option"
  and loadLines ::
    "Env \<Rightarrow> nat \<Rightarrow> string \<Rightarrow> nat \<Rightarrow> string list \<Rightarrow> LoadState \<Rightarrow> (error + LoadState) option"
  and loadMatches :: "Env \<Rightarrow> nat \<Rightarrow> string list \<Rightarrow> LoadState \<Rightarrow> (error + LoadState) option"
where
  "load env 0 p st = None"
| "load env (Suc depth) p st =
     (if p \<in> set (ls_visited st) then Some (Inr st)
      else (case openFile env p of
              Inl err \<Rightarrow> Some (Inl (ErrOpenConfig p err))
            | Inr (content, readErr) \<Rightarrow>
                (case loadLines env depth p 0 (fst (scanLines MaxScanTokenSize content))
                        (st\<lparr>ls_visited := p # ls_visited st\<rparr>) of
                   None \<Rightarrow> None
                 | Some (Inl err) \<Rightarrow> Some (Inl err)
                 | Some (Inr st') \<Rightarrow>
                     if snd (scanLines MaxScanTokenSize content)
                     then Some (Inl (ErrReadConfig p ErrTooLong))
                     else (case readErr of
                             Some err \<Rightarrow> Some (Inl (ErrReadConfig p err))
                           | None \<Rightarrow> Some (Inr st')))))"
| "loadLines env depth p lineNo [] st = Some (Inr st)"
| "loadLines env depth p lineNo (line # ls) st =
     (if trimSpace line = [] \<or> hasPrefix (trimSpace line) ''#'' \<or> hasPrefix (trimSpace line) ''//''
      then loadLines env depth p (lineNo + 1) ls st
      else if length (lineFields (trimSpace line)) = 0 then loadLines env depth p (lineNo + 1) ls st
      else if hd (lineFields (trimSpace line)) = ''include'' then
        (if length (lineFields (trimSpace line)) < 2 then Some (Inl (ErrIncludeExpects p (lineNo + 1)))
         else (case glob env (lineFields (trimSpace line) ! 1) of
                 Inl err \<Rightarrow> Some (Inl (ErrInvalidGlob p (lineNo + 1) err))
               | Inr matches \<Rightarrow>
                   (case loadMatches env depth matches
                           (st\<lparr>ls_cfg := (ls_cfg st)
                                 \<lparr>Includes := Includes (ls_cfg st) @ [lineFields (trimSpace line) ! 1]\<rparr>\<rparr>) of
                      None \<Rightarrow> None
                    | Some (Inl err) \<Rightarrow> Some (Inl err)
                    | Some (Inr st') \<Rightarrow> loadLines env depth p (lineNo + 1) ls st')))
      else (case directive p (lineNo + 1) (lineFields (trimSpace line)) (ls_cfg st) of
              Inl err \<Rightarrow> Some (Inl err)
            | Inr cfg' \<Rightarrow> loadLines env depth p (lineNo + 1) ls (st\<lparr>ls_cfg := cfg'\<rparr>)))"
| "loadMatches env depth [] st = Some (Inr st)"
| "loadMatches env depth (match # matches) st =
     (case load env depth match st of
        None \<Rightarrow> None
      | Some (Inl err) \<Rightarrow> Some (Inl err)
      | Some (Inr st') \<Rightarrow> loadMatches env depth matches st')"

definition emptyConfig :: Config where
  "emptyConfig =
     \<lparr>Options = Map.empty, Feeds = [], Destinations = [], Includes = [], Architectures = []\<rparr>"

definition Load :: "Env \<Rightarrow> nat \<Rightarrow> string \<Rightarrow> (error + Config) option" where
  "Load env depth p =
     (case load env depth p \<lparr>ls_cfg = emptyConfig, ls_visited = []\<rparr> of
        None \<Rightarrow> None
      | Some (Inl err) \<Rightarrow> Some (Inl err)
      | Some (Inr st) \<Rightarrow> Some (Inr (ls_cfg st)))"

section \<open>The package manager (package pkgmgr)\<close>

text \<open>\<open>config.EnsureCacheDir\<close>, which creates the cache directory.\<close>

definition EnsureCacheDir :: "Env \<Rightarrow> Config option \<Rightarrow> fsop list \<times> (error + string)" where
  "EnsureCacheDir env cfg =
     (if cfg = None then ([], Inl ErrNilConfig)
      else if CacheDir cfg = [] then ([], Inl ErrCacheDirNotConfigured)
      else (case fsFail env (MkdirAll (CacheDir cfg) ModePerm) of
              Some err \<Rightarrow> ([MkdirAll (CacheDir cfg) ModePerm], Inl (ErrCreateCacheDir err))
            | None \<Rightarrow> ([MkdirAll (CacheDir cfg) ModePerm], Inr (CacheDir cfg))))"

text \<open>
  Modelled from the spec: the field \<open>indexesLoaded\<close> of the manager. \<open>ensureIndexesLoaded\<close>
  reads it, but the struct \<open>Manager\<close> of \<open>internal/pkgmgr/manager.go\<close> does not declare it;
  it is the "indexes-loaded flag" of the specification, a boolean. No function of the
  source assigns it, and the struct literal of \<open>New\<close> does not mention it, so a new manager
  has Go's zero value \<open>false\<close> there. The other fields are those of the struct.
\<close>

record Manager =
  m_cfg :: "Config option"
  m_client :: "Client option"
  m_status :: Status
  m_indexes :: IndexSet
  m_cache :: string
  m_indexesLoaded :: bool

text \<open>
  \<open>New\<close>. Its first argument after the environment bounds the nesting of included
  configuration files, as for \<open>Load\<close>; \<open>None\<close> means that the bound was too small.
\<close>

definition loadStatus :: "Env \<Rightarrow> Config option \<Rightarrow> error + Status" where
  "loadStatus env cfg =
     (case StatusPath cfg of
        Inl err \<Rightarrow> Inr Empty
      | Inr statusPath \<Rightarrow>
          (case pkgdb_Load env statusPath of
             Inr st \<Rightarrow> Inr st
           | Inl err \<Rightarrow> if isNotExist env err then Inr Empty else Inl err))"

definition New :: "Env \<Rightarrow> nat \<Rightarrow> string \<Rightarrow> (fsop list \<times> (error + Manager)) option" where
  "New env depth cfgPath =
     (case Load env depth cfgPath of
        None \<Rightarrow> None
      | Some (Inl err) \<Rightarrow> Some ([], Inl err)
      | Some (Inr c) \<Rightarrow>
          (case EnsureCacheDir env (Some c) of
             (ops, Inl err) \<Rightarrow> Some (ops, Inl err)
           | (ops, Inr cacheDir) \<Rightarrow>
               (case loadStatus env (Some c) of
                  Inl err \<Rightarrow> Some (ops, Inl err)
                | Inr st \<Rightarrow>
                    Some (ops, Inr \<lparr>m_cfg = Some c,
                                     m_client = downloader_New 0,
                                     m_status = st,
                                     m_indexes = \<lparr>indexes = []\<rparr>,
                                     m_cache = cacheDir,
                                     m_indexesLoaded = False\<rparr>))))"

text \<open>\<open>Manager.Update\<close>: the file-system operations, the error (if any) and the manager afterwards.\<close>

definition Manager_Update ::
  "Env \<Rightarrow> nat list \<Rightarrow> Manager \<Rightarrow> fsop list list \<times> error option \<times> Manager" where
  "Manager_Update env sched m =
     (case Update env sched (m_cfg m) (m_cache m) (m_client m) of
        (ops, Inl err) \<Rightarrow> (ops, Some err, m)
      | (ops, Inr idxs) \<Rightarrow> (ops, None, m\<lparr>m_indexes := NewIndexSet idxs\<rparr>))"

subsection \<open>Queries\<close>


record UpgradeCandidate =
  uc_Name :: string
  uc_Installed :: string
  uc_Available :: string
  uc_Description :: string

record UpgradeResult =
  Upgrade :: UpgradeCandidate
  Destination :: string

definition ensureIndexesLoaded :: "Manager \<Rightarrow> error option" where
  "ensureIndexesLoaded m = (if \<not> m_indexesLoaded m then Some ErrIndexesNotLoaded else None)"

definition matchesAny :: "string \<Rightarrow> string list \<Rightarrow> bool" where
  "matchesAny name patterns =
     (if length patterns = 0 then True
      else list_ex (\<lambda>pattern. path_Match pattern name = Some True) patterns)"

definition firstLine :: "string \<Rightarrow> string" where
  "firstLine text =
     (case indexByte text (CHR 0x0A) of
        Some idx \<Rightarrow> take idx text
      | None \<Rightarrow> text)"




text \<open>The loop of \<open>ListUpgradable\<close> over the entries of the status database.\<close>

fun upgradable :: "Manager \<Rightarrow> string list \<Rightarrow> Entry list \<Rightarrow> UpgradeCandidate list" where
  "upgradable m patterns [] = []"
| "upgradable m patterns (entry # entries) =
     (if \<not> matchesAny (entry_Name entry) patterns then upgradable m patterns entries
      else (case Find (m_indexes m) (entry_Name entry) of
              None \<Rightarrow> upgradable m patterns entries
            | Some pkg \<Rightarrow>
                if Compare (entry_Version entry) (pkg_Version pkg) \<ge> 0
                then upgradable m patterns entries
                else \<lparr>uc_Name = entry_Name entry,
                      uc_Installed = entry_Version entry,
                      uc_Available = pkg_Version pkg,
                      uc_Description = firstLine (pkg_Description pkg)\<rparr>
                     # upgradable m patterns entries))"

definition ListUpgradable :: "Manager \<Rightarrow> string list \<Rightarrow> error + UpgradeCandidate list" where
  "ListUpgradable m patterns =
     (case ensureIndexesLoaded m of
        Some err \<Rightarrow> Inl err
      | None \<Rightarrow> Inr (sort_key uc_Name (upgradable m patterns (Entries (m_status m)))))"

text \<open>\<open>Install\<close> and \<open>Download\<close>: the archive of a package is fetched into the cache.\<close>

definition Install ::
  "Env \<Rightarrow> Manager \<Rightarrow> string \<Rightarrow> fsop list \<times> (error + string)" where
  "Install env m name =
     (case Find (m_indexes m) name of
        None \<Rightarrow> ([], Inl (ErrNotAvailable name))
      | Some pkg \<Rightarrow>
          if pkg_Filename pkg = [] then ([], Inl (ErrNoFilename name))
          else let url = trimSuffix (feed_URI (pkg_Feed pkg)) ''/'' @ ''/'' @
                         trimPrefix (pkg_Filename pkg) ''/'';
                   dest = filepath_Join (m_cache m) (filepath_Base (pkg_Filename pkg))
               in case DownloadToFile env (m_client m) url dest of
                    (ops, Some err) \<Rightarrow> (ops, Inl err)
                  | (ops, None) \<Rightarrow> (ops, Inr dest))"

definition Download ::
  "Env \<Rightarrow> Manager \<Rightarrow> string \<Rightarrow> fsop list \<times> (error + string)" where
  "Download env m name = Install env m name"

fun upgradeAll ::
  "Env \<Rightarrow> Manager \<Rightarrow> UpgradeCandidate list \<Rightarrow> fsop list \<Rightarrow> UpgradeResult list \<Rightarrow>
   fsop list \<times> UpgradeResult list \<times> error option" where
  "upgradeAll env m [] ops results = (ops, results, None)"
| "upgradeAll env m (candidate # candidates) ops results =
     (case Install env m (uc_Name candidate) of
        (ops', Inl err) \<Rightarrow> (ops @ ops', results, Some err)
      | (ops', Inr dest) \<Rightarrow>
          upgradeAll env m candidates (ops @ ops')
            (results @ [\<lparr>Upgrade = candidate, Destination = dest\<rparr>]))"

definition Manager_Upgrade ::
  "Env \<Rightarrow> Manager \<Rightarrow> string list \<Rightarrow> fsop list \<times> UpgradeResult list \<times> error option" where
  "Manager_Upgrade env m patterns =
     (case ListUpgradable m patterns of
        Inl err \<Rightarrow> ([], [], Some err)
      | Inr candidates \<Rightarrow> upgradeAll env m candidates [] [])"

definition StatusParagraphs :: "Manager \<Rightarrow> string list \<Rightarrow> Entry list" where
  "StatusParagraphs m patterns =
     (if length patterns = 0 then Entries (m_status m)
      else sort_key entry_Name
             (filter (\<lambda>entry. matchesAny (entry_Name entry) patterns) (Entries (m_status m))))"

definition GlobStatus :: "Manager \<Rightarrow> string list \<Rightarrow> Paragraph list" where
  "GlobStatus m patterns = map entry_Raw (StatusParagraphs m patterns)"

definition Manager_Architectures :: "Manager \<Rightarrow> Architecture list" where
  "Manager_Architectures m = (case m_cfg m of None \<Rightarrow> [] | Some c \<Rightarrow> Architectures c)"

subsection \<open>Relations between packages\<close>

record ReverseDependencyQuery =
  q_Field :: string
  q_IncludeAll :: bool
  q_Recursive :: bool
  q_Patterns :: "string list"

definition tokenOfPart :: "string \<Rightarrow> string" where
  "tokenOfPart part =
     (case indexAny part '' (<>='' of
        Some idx \<Rightarrow> trimSpace (take idx part)
      | None \<Rightarrow> part)"

definition tokensFromRelations :: "string \<Rightarrow> string list" where
  "tokensFromRelations field =
     concat (map
       (\<lambda>clause.
          if trimSpace clause = [] then []
          else concat (map
                 (\<lambda>part. if trimSpace part = [] then [] else [tokenOfPart (trimSpace part)])
                 (splitOn (CHR ''|'') (trimSpace clause))))
       (splitOn (CHR '','') field))"

definition relationMatches :: "string \<Rightarrow> string \<Rightarrow> bool" where
  "relationMatches field pattern =
     (if field = [] then False
      else list_ex (\<lambda>token. path_Match pattern token = Some True) (tokensFromRelations field))"

definition filterInstalled :: "Package list \<Rightarrow> Status \<Rightarrow> Package list" where
  "filterInstalled pkgs st = filter (\<lambda>pkg. Installed st (pkg_Name pkg)) pkgs"

text \<open>The zero value of \<open>config.Feed\<close>.\<close>

definition noFeed :: Feed where
  "noFeed = \<lparr>feed_Name = [], feed_URI = [], feed_Type = []\<rparr>"

definition appendMissingInstalled :: "Package list \<Rightarrow> Status \<Rightarrow> Package list" where
  "appendMissingInstalled pkgs st =
     pkgs @
     map (\<lambda>entry. \<lparr>pkg_Name = entry_Name entry,
                    pkg_Version = entry_Version entry,
                    pkg_Architecture = [],
                    pkg_Description = Value (entry_Raw entry) ''Description'',
                    pkg_Filename = [],
                    pkg_Size = [],
                    pkg_Feed = noFeed,
                    pkg_Raw = entry_Raw entry\<rparr>)
         (filter (\<lambda>entry. entry_Name entry \<notin> pkg_Name ` set pkgs) (Entries st))"

text \<open>
  The inner loop of \<open>ReverseDependencies\<close> over the universe, for one target. The maps
  \<open>matched\<close> and \<open>seenTargets\<close> only ever hold \<open>true\<close>; they are the lists of their keys.
\<close>

fun scanUniverse ::
  "string \<Rightarrow> bool \<Rightarrow> string \<Rightarrow> Package list \<Rightarrow> string list \<Rightarrow> string list \<Rightarrow>
   string list \<times> string list" where
  "scanUniverse field recursive target [] matched queue = (matched, queue)"
| "scanUniverse field recursive target (pkg # universe) matched queue =
     (if pkg_Name pkg \<in> set matched then
        scanUniverse field recursive target universe matched queue
      else if relationMatches (Value (pkg_Raw pkg) field) target then
        scanUniverse field recursive target universe (matched @ [pkg_Name pkg])
          (if recursive then queue @ [pkg_Name pkg] else queue)
      else scanUniverse field recursive target universe matched queue)"

text \<open>
  The outer loop of \<open>ReverseDependencies\<close> over the queue of targets. It terminates: a
  round either matches a package of the universe that was not matched before, or leaves
  \<open>matched\<close> as it was and shortens the queue.
\<close>

definition unmatched :: "Package list \<Rightarrow> string list \<Rightarrow> nat" where
  "unmatched universe matched = length (filter (\<lambda>pkg. pkg_Name pkg \<notin> set matched) universe)"

lemma scanUniverse_result:
  "scanUniverse field recursive target ps matched queue = (matched', queue') \<Longrightarrow>
   set matched \<subseteq> set matched' \<and>
   ((matched' = matched \<and> queue' = queue) \<or>
    (\<exists>pkg \<in> set ps. pkg_Name pkg \<notin> set matched \<and> pkg_Name pkg \<in> set matched'))"
proof (induction ps arbitrary: matched queue)
  case Nil
  then show ?case by simp
next
  case (Cons pkg ps)
  show ?case
  proof (cases "pkg_Name pkg \<in> set matched")
    case True
    with Cons.prems have "scanUniverse field recursive target ps matched queue = (matched', queue')"
      by simp
    from Cons.IH [OF this] show ?thesis by auto
  next
    case False
    show ?thesis
    proof (cases "relationMatches (Value (pkg_Raw pkg) field) target")
      case True
      with False Cons.prems have
        "scanUniverse field recursive target ps (matched @ [pkg_Name pkg])
           (if recursive then queue @ [pkg_Name pkg] else queue) = (matched', queue')"
        by simp
      from Cons.IH [OF this] have "set (matched @ [pkg_Name pkg]) \<subseteq> set matched'" by blast
      with False show ?thesis by auto
    next
      case F: False
      with False Cons.prems have
        "scanUniverse field recursive target ps matched queue = (matched', queue')"
        by simp
      from Cons.IH [OF this] show ?thesis by auto
    qed
  qed
qed

lemma unmatched_less:
  assumes "set matched \<subseteq> set matched'" "pkg \<in> set universe"
    "pkg_Name pkg \<notin> set matched" "pkg_Name pkg \<in> set matched'"
  shows "unmatched universe matched' < unmatched universe matched"
proof -
  let ?P = "\<lambda>pkg. pkg_Name pkg \<notin> set matched" and ?Q = "\<lambda>pkg. pkg_Name pkg \<notin> set matched'"
  have "filter ?Q universe = filter ?Q (filter ?P universe)"
    using assms(1) by (auto intro: filter_cong)
  moreover have "pkg \<in> set (filter ?P universe)" "\<not> ?Q pkg"
    using assms by simp_all
  then have "length (filter ?Q (filter ?P universe)) < length (filter ?P universe)"
    by (rule length_filter_less)
  ultimately show ?thesis by (simp add: unmatched_def)
qed

function reverseLoop ::
  "string \<Rightarrow> bool \<Rightarrow> Package list \<Rightarrow> string list \<Rightarrow> string list \<Rightarrow> string list \<Rightarrow>
   string list" where
  "reverseLoop field recursive universe [] seenTargets matched = matched"
| "reverseLoop field recursive universe (target # queue) seenTargets matched =
     (if target \<in> set seenTargets then
        reverseLoop field recursive universe queue seenTargets matched
      else
        (case scanUniverse field recursive target universe matched queue of
           (matched', queue') \<Rightarrow>
             reverseLoop field recursive universe queue' (target # seenTargets) matched'))"
  by pat_completeness auto
termination
proof (relation "measures [\<lambda>(field, recursive, universe, queue, seenTargets, matched).
                              unmatched universe matched,
                           \<lambda>(field, recursive, universe, queue, seenTargets, matched).
                              length queue]", goal_cases)
  case 1
  show ?case by simp
next
  case 2
  show ?case by simp
next
  case (3 field recursive universe target queue seenTargets matched matched' queue')
  then have "scanUniverse field recursive target universe matched queue = (matched', queue')"
    by simp
  from scanUniverse_result [OF this] show ?case
    by (auto dest: unmatched_less)
qed

definition ReverseDependencies :: "Manager \<Rightarrow> ReverseDependencyQuery \<Rightarrow> error + string list" where
  "ReverseDependencies m q =
     (case ensureIndexesLoaded m of
        Some err \<Rightarrow> Inl err
      | None \<Rightarrow>
          if length (q_Patterns q) = 0 then Inl ErrNoPatterns
          else
            let universe =
                  (if q_IncludeAll q then appendMissingInstalled (All (m_indexes m)) (m_status m)
                   else appendMissingInstalled
                          (filterInstalled (All (m_indexes m)) (m_status m)) (m_status m))
            in Inr (sort (reverseLoop (q_Field q) (q_Recursive q) universe (q_Patterns q) [] [])))"






section \<open>Auxiliary notions for the proofs\<close>

subsection \<open>Three-way comparisons\<close>

text \<open>
  A three-way comparison \<open>f\<close> is a total preorder when it takes its values in
  \<open>{-1, 0, 1}\<close>, is reflexive, changes sign when its arguments are swapped, and is
  transitive. \<open>cmp3\<close> is the comparison of a linear order; \<open>thenCmp f g\<close> decides by
  \<open>f\<close> and, on a tie, by \<open>g\<close>. \<open>nkey\<close> maps a non-digit run to the list of its weights,
  cut at the first NUL byte and closed by the weight of the end of the string.
\<close>

definition cmp3 :: "'a::linorder \<Rightarrow> 'a \<Rightarrow> int" where
  "cmp3 x y = (if x < y then - 1 else if x = y then 0 else 1)"

fun nkey :: "string \<Rightarrow> int list" where
  "nkey [] = [0]"
| "nkey (c # cs) = (if rune_of c = 0 then [0] else order (rune_of c) # nkey cs)"

definition tpo :: "('a \<Rightarrow> 'a \<Rightarrow> int) \<Rightarrow> bool" where
  "tpo f \<longleftrightarrow>
     (\<forall>a b. f a b = - 1 \<or> f a b = 0 \<or> f a b = 1) \<and>
     (\<forall>a. f a a = 0) \<and>
     (\<forall>a b. f a b = - f b a) \<and>
     (\<forall>a b c. f a b \<le> 0 \<longrightarrow> f b c \<le> 0 \<longrightarrow> f a c \<le> 0)"

definition thenCmp :: "('a \<Rightarrow> 'a \<Rightarrow> int) \<Rightarrow> ('a \<Rightarrow> 'a \<Rightarrow> int) \<Rightarrow> 'a \<Rightarrow> 'a \<Rightarrow> int" where
  "thenCmp f g a b = (if f a b \<noteq> 0 then f a b else g a b)"

text \<open>One round of the loop: the non-digit runs, then the digit runs that follow.\<close>

definition dropNonDigits :: "string \<Rightarrow> string" where
  "dropNonDigits s = drop (length (leadingNonDigits s)) s"

definition dropDigits :: "string \<Rightarrow> string" where
  "dropDigits s = drop (length (leadingDigits s)) s"

definition roundCmp :: "string \<Rightarrow> string \<Rightarrow> int" where
  "roundCmp =
     thenCmp (\<lambda>a b. compareNonDigits (leadingNonDigits a) (leadingNonDigits b))
             (\<lambda>a b. compareDigits (leadingDigits (dropNonDigits a)) (leadingDigits (dropNonDigits b)))"

definition afterRound :: "string \<Rightarrow> string" where
  "afterRound s = dropDigits (dropNonDigits s)"

definition epochOf :: "string \<Rightarrow> int" where
  "epochOf s = fst (splitEpoch s)"

definition upstreamOf :: "string \<Rightarrow> string" where
  "upstreamOf s = fst (splitRevision (snd (splitEpoch s)))"

definition revisionOf :: "string \<Rightarrow> string" where
  "revisionOf s = snd (splitRevision (snd (splitEpoch s)))"

section \<open>Auxiliary notions and examples for the package manager\<close>

text \<open>
  \<open>firstError\<close> is the error that \<open>Update\<close> records: the first failure among the outcomes of
  the goroutines, in the order of their critical sections.

  The examples: a configuration file with the feeds \<open>base\<close> and \<open>extra\<close>, which both offer a
  package \<open>foo\<close> (version 1.0 in \<open>base\<close>, 2.0 in \<open>extra\<close>); an environment where both feeds
  answer (\<open>base\<close> only under \<open>Packages\<close>, \<open>extra\<close> under \<open>Packages.gz\<close>) and one where \<open>extra\<close>
  refuses connections; the manager that \<open>New\<close> builds from the configuration; a status
  database with one entry whose package was removed and left its configuration files; and
  the four installed packages \<open>A\<close>, \<open>B\<close>, \<open>C\<close>, \<open>D\<close>, where \<open>A\<close> depends on \<open>B\<close>, \<open>B\<close> on \<open>C\<close> and
  \<open>D\<close> on \<open>A\<close>.
\<close>

definition firstError :: "(error + 'a) list \<Rightarrow> error option" where
  "firstError outcomes =
     (case find isl outcomes of Some (Inl err) \<Rightarrow> Some err | _ \<Rightarrow> None)"

text \<open>A sequence of calls of \<open>Manager.Update\<close>, one for each schedule of the list.\<close>

fun updates :: "Env \<Rightarrow> nat list list \<Rightarrow> Manager \<Rightarrow> Manager" where
  "updates env [] m = m"
| "updates env (sched # scheds) m = updates env scheds (snd (snd (Manager_Update env sched m)))"

definition baseFeed :: Feed where
  "baseFeed = \<lparr>feed_Name = ''base'', feed_URI = ''http://example.invalid/base'', feed_Type = ''src/gz''\<rparr>"

definition extraFeed :: Feed where
  "extraFeed = \<lparr>feed_Name = ''extra'', feed_URI = ''http://example.invalid/extra/'', feed_Type = ''src''\<rparr>"

definition fooText :: "string \<Rightarrow> bytes" where
  "fooText v = ''Package: foo'' @ [CHR 0x0A] @ ''Version: '' @ v @ [CHR 0x0A]"

definition fooPackage :: "Feed \<Rightarrow> string \<Rightarrow> Package" where
  "fooPackage feed v =
     \<lparr>pkg_Name = ''foo'', pkg_Version = v, pkg_Architecture = [], pkg_Description = [],
      pkg_Filename = [], pkg_Size = [], pkg_Feed = feed,
      pkg_Raw = \<lparr>Fields = [(''Package'', ''foo''), (''Version'', v)]\<rparr>\<rparr>"

definition fooIndex :: "Feed \<Rightarrow> string \<Rightarrow> Index" where
  "fooIndex feed v = \<lparr>idx_Feed = feed, Packages = [(''foo'', fooPackage feed v)], Updated = 0\<rparr>"

definition exampleConfig :: Config where
  "exampleConfig =
     \<lparr>Options = Map.empty, Feeds = [baseFeed, extraFeed],
      Destinations = [\<lparr>dest_Name = ''root'', dest_Path = ''/''\<rparr>],
      Includes = [], Architectures = []\<rparr>"

definition exampleConfigText :: bytes where
  "exampleConfigText =
     ''src/gz base http://example.invalid/base'' @ [CHR 0x0A] @
     ''src extra http://example.invalid/extra/'' @ [CHR 0x0A] @
     ''dest root /'' @ [CHR 0x0A]"

definition okResponse :: "bytes \<Rightarrow> Response" where
  "okResponse data = \<lparr>StatusCode = 200, Status = ''200 OK'', Body = Inr data\<rparr>"

definition notFoundResponse :: Response where
  "notFoundResponse = \<lparr>StatusCode = 404, Status = ''404 Not Found'', Body = Inr []\<rparr>"

definition exampleEnv :: Env where
  "exampleEnv =
     \<lparr>httpDo = (\<lambda>url. if url = ''http://example.invalid/base/Packages''
                       then Inr (okResponse (fooText ''1.0''))
                       else if url = ''http://example.invalid/extra/Packages.gz''
                       then Inr (okResponse (fooText ''2.0''))
                       else Inr notFoundResponse),
      gunzip = (\<lambda>d. GzBadHeader (ErrOS ''gzip: invalid header'')),
      openFile = (\<lambda>p. if p = ''/etc/opkg/opkg.conf'' then Inr (exampleConfigText, None)
                        else Inl (ErrOS ''no such file or directory'')),
      glob = (\<lambda>pattern. Inr []),
      notExist = (\<lambda>e. e = ErrOS ''no such file or directory''),
      fsFail = (\<lambda>op. None),
      timeNow = (\<lambda>feed. 0)\<rparr>"

definition exampleManager :: Manager where
  "exampleManager =
     \<lparr>m_cfg = Some exampleConfig, m_client = downloader_New 0, m_status = Empty,
      m_indexes = \<lparr>indexes = []\<rparr>, m_cache = ''/tmp'', m_indexesLoaded = False\<rparr>"

definition brokenEnv :: Env where
  "brokenEnv =
     exampleEnv\<lparr>httpDo := (\<lambda>url. if url = ''http://example.invalid/base/Packages''
                                   then Inr (okResponse (fooText ''1.0''))
                                   else Inl (ErrOS ''connection refused''))\<rparr>"



definition statusDirConfig :: Config where
  "statusDirConfig =
     \<lparr>Options = [''status_dir'' \<mapsto> ''/usr/lib/opkg''], Feeds = [], Destinations = [],
      Includes = [], Architectures = []\<rparr>"

definition statusTestConfig :: Config where
  "statusTestConfig =
     \<lparr>Options = [''status_file'' \<mapsto> ''/var/lib/opkg/status'', ''status_dir'' \<mapsto> ''/usr/lib/opkg''],
      Feeds = [], Destinations = [\<lparr>dest_Name = ''root'', dest_Path = ''/''\<rparr>],
      Includes = [], Architectures = []\<rparr>"

definition statusDirText :: bytes where
  "statusDirText = ''option status_dir /usr/lib/opkg'' @ [CHR 0x0A]"

definition statusTestText :: bytes where
  "statusTestText =
     ''option status_file /var/lib/opkg/status'' @ [CHR 0x0A] @
     ''option status_dir /usr/lib/opkg'' @ [CHR 0x0A] @
     ''dest root /'' @ [CHR 0x0A]"

definition fileEnv :: "bytes \<Rightarrow> Env" where
  "fileEnv content =
     exampleEnv\<lparr>openFile := (\<lambda>p. if p = ''/etc/opkg/opkg.conf'' then Inr (content, None)
                                    else Inl (ErrOS ''no such file or directory''))\<rparr>"



definition installedPara :: "string \<Rightarrow> string \<Rightarrow> Paragraph" where
  "installedPara name deps =
     \<lparr>Fields = [(''Package'', name), (''Status'', ''install ok installed'')] @
               (if deps = [] then [] else [(''Depends'', deps)])\<rparr>"

definition installedEntry :: "string \<Rightarrow> string \<Rightarrow> Entry" where
  "installedEntry name deps =
     \<lparr>entry_Name = name, entry_Version = ''1.0'', entry_Architecture = ''all'',
      entry_Status = ''install ok installed'', entry_Raw = installedPara name deps\<rparr>"

definition abcdStatus :: Status where
  "abcdStatus =
     \<lparr>st_path = ''/usr/lib/opkg/status'',
      byName = [(''A'', installedEntry ''A'' ''B''), (''B'', installedEntry ''B'' ''C''),
                (''C'', installedEntry ''C'' []), (''D'', installedEntry ''D'' ''A'')]\<rparr>"

definition abcdManager :: Manager where
  "abcdManager =
     \<lparr>m_cfg = Some exampleConfig, m_client = downloader_New 0, m_status = abcdStatus, m_indexes = \<lparr>indexes = []\<rparr>,
      m_cache = ''/tmp'', m_indexesLoaded = True\<rparr>"

definition abcdIndex :: Index where
  "abcdIndex =
     \<lparr>idx_Feed = baseFeed,
      Packages = map (\<lambda>(name, deps).
                        (name, \<lparr>pkg_Name = name, pkg_Version = ''1.0'', pkg_Architecture = ''all'',
                                pkg_Description = [], pkg_Filename = [], pkg_Size = [],
                                pkg_Feed = baseFeed, pkg_Raw = installedPara name deps\<rparr>))
                     [(''D'', ''A''), (''C'', []), (''B'', ''C''), (''A'', ''B'')],
      Updated = 0\<rparr>"

definition abcdQueryFor :: "string \<Rightarrow> bool \<Rightarrow> ReverseDependencyQuery" where
  "abcdQueryFor target r =
     \<lparr>q_Field = ''Depends'', q_IncludeAll = False, q_Recursive = r, q_Patterns = [target]\<rparr>"

section \<open>The version order is a total preorder\<close>

lemma order_eq_0_iff: "order r = 0 \<longleftrightarrow> r = 0"
  by (auto simp: order_def isDigit_def)

lemma order_0 [simp]: "order 0 = 0"
  by (simp add: order_def)

lemma compareNonDigits_loop_key:
  "compareNonDigits_loop a b ia ib = cmp3 (nkey (drop ia a)) (nkey (drop ib b))"
proof (induction a b ia ib rule: compareNonDigits_loop.induct)
  case (1 a b ia ib)
  have IH: "compareNonDigits_loop a b ia' ib' = cmp3 (nkey (drop ia' a)) (nkey (drop ib' b))"
    if "ia < length a \<or> ib < length b" "(ra, ia') = nextRune a ia" "(rb, ib') = nextRune b ib"
       "order ra = order rb" "\<not> (ra = 0 \<and> rb = 0)" for ra ia' rb ib'
    using 1 [OF that(1) refl that(2) refl that(3) refl refl] that(4,5) by simp
  show ?case
  proof (cases "ia < length a"; cases "ib < length b")
    assume a: "ia < length a" and b: "ib < length b"
    then show ?thesis
      using IH [of "rune_of (a ! ia)" "Suc ia" "rune_of (b ! ib)" "Suc ib"]
      apply (subst compareNonDigits_loop.simps)
      by (auto simp: nextRune_def Cons_nth_drop_Suc [symmetric] cmp3_def order_eq_0_iff Let_def)
  next
    assume a: "ia < length a" and b: "\<not> ib < length b"
    then show ?thesis
      apply (subst compareNonDigits_loop.simps)
      by (auto simp: nextRune_def Cons_nth_drop_Suc [symmetric] cmp3_def order_eq_0_iff Let_def)
  next
    assume a: "\<not> ia < length a" and b: "ib < length b"
    then show ?thesis
      apply (subst compareNonDigits_loop.simps)
      by (auto simp: nextRune_def Cons_nth_drop_Suc [symmetric] cmp3_def order_eq_0_iff Let_def)
  next
    assume a: "\<not> ia < length a" and b: "\<not> ib < length b"
    then show ?thesis
      apply (subst compareNonDigits_loop.simps)
      by (simp add: cmp3_def)
  qed
qed

lemma tpoI:
  assumes "\<And>a b. f a b = - 1 \<or> f a b = 0 \<or> f a b = 1"
    and "\<And>a. f a a = 0"
    and "\<And>a b. f a b = - f b a"
    and "\<And>a b c. f a b \<le> 0 \<Longrightarrow> f b c \<le> 0 \<Longrightarrow> f a c \<le> 0"
  shows "tpo f"
  using assms unfolding tpo_def by blast

lemma tpo_range: "tpo f \<Longrightarrow> f a b = - 1 \<or> f a b = 0 \<or> f a b = 1"
  unfolding tpo_def by blast

lemma tpo_refl: "tpo f \<Longrightarrow> f a a = 0"
  unfolding tpo_def by blast

lemma tpo_sym: "tpo f \<Longrightarrow> f a b = - f b a"
  unfolding tpo_def by blast

lemma tpo_trans: "tpo f \<Longrightarrow> f a b \<le> 0 \<Longrightarrow> f b c \<le> 0 \<Longrightarrow> f a c \<le> 0"
  unfolding tpo_def by blast

lemma tpo_lt_le:
  assumes "tpo f" "f a b < 0" "f b c \<le> 0"
  shows "f a c < 0"
proof (rule ccontr)
  assume "\<not> f a c < 0"
  moreover have "f a c \<le> 0" using assms tpo_trans [of f a b c] by simp
  ultimately have "f a c = 0" by simp
  then have "f c a \<le> 0" using tpo_sym [OF assms(1), of c a] by simp
  with assms(3) have "f b a \<le> 0" using tpo_trans [OF assms(1), of b c a] by simp
  then show False using assms(2) tpo_sym [OF assms(1), of a b] by simp
qed

lemma tpo_le_lt:
  assumes "tpo f" "f a b \<le> 0" "f b c < 0"
  shows "f a c < 0"
proof (rule ccontr)
  assume "\<not> f a c < 0"
  moreover have "f a c \<le> 0" using assms tpo_trans [of f a b c] by simp
  ultimately have "f a c = 0" by simp
  then have "f c a \<le> 0" using tpo_sym [OF assms(1), of c a] by simp
  with assms(2) have "f c b \<le> 0" using tpo_trans [OF assms(1), of c a b] by simp
  then show False using assms(3) tpo_sym [OF assms(1), of b c] by simp
qed

lemma tpo_eq_eq:
  assumes "tpo f" "f a b = 0" "f b c = 0"
  shows "f a c = 0"
proof -
  have "f a c \<le> 0" using assms tpo_trans [of f a b c] by simp
  moreover have "f c b = 0" "f b a = 0"
    using assms tpo_sym [OF assms(1), of c b] tpo_sym [OF assms(1), of b a] by simp_all
  then have "f c a \<le> 0" using tpo_trans [OF assms(1), of c b a] by simp
  then have "0 \<le> f a c" using tpo_sym [OF assms(1), of a c] by simp
  ultimately show ?thesis by simp
qed

lemma tpo_cmp3: "tpo (\<lambda>a b. cmp3 (k a) (k b))"
  by (rule tpoI) (auto simp: cmp3_def split: if_splits)

lemma tpo_on: "tpo f \<Longrightarrow> tpo (\<lambda>a b. f (h a) (h b))"
  unfolding tpo_def by blast

lemma tpo_thenCmp:
  assumes f: "tpo f" and g: "tpo g"
  shows "tpo (thenCmp f g)"
proof (rule tpoI)
  fix a b
  show "thenCmp f g a b = - 1 \<or> thenCmp f g a b = 0 \<or> thenCmp f g a b = 1"
    using tpo_range [OF f, of a b] tpo_range [OF g, of a b] by (auto simp: thenCmp_def)
  show "thenCmp f g a a = 0"
    using tpo_refl [OF f] tpo_refl [OF g] by (simp add: thenCmp_def)
  show "thenCmp f g a b = - thenCmp f g b a"
    using tpo_sym [OF f, of a b] tpo_sym [OF g, of a b] by (auto simp: thenCmp_def)
next
  fix a b c
  assume ab: "thenCmp f g a b \<le> 0" and bc: "thenCmp f g b c \<le> 0"
  from ab have fab: "f a b \<le> 0" using tpo_range [OF f, of a b]
    by (auto simp: thenCmp_def split: if_splits)
  from bc have fbc: "f b c \<le> 0" using tpo_range [OF f, of b c]
    by (auto simp: thenCmp_def split: if_splits)
  show "thenCmp f g a c \<le> 0"
  proof (cases "f a b < 0 \<or> f b c < 0")
    case True
    then have "f a c < 0"
      using tpo_lt_le [OF f, of a b c] tpo_le_lt [OF f, of a b c] fab fbc by blast
    then show ?thesis by (simp add: thenCmp_def)
  next
    case False
    with fab fbc have z: "f a b = 0" "f b c = 0" by simp_all
    then have "f a c = 0" by (rule tpo_eq_eq [OF f])
    moreover from z ab bc have "g a b \<le> 0" "g b c \<le> 0" by (simp_all add: thenCmp_def)
    then have "g a c \<le> 0" by (rule tpo_trans [OF g])
    ultimately show ?thesis by (simp add: thenCmp_def)
  qed
qed

lemma tpo_compareNonDigits: "tpo compareNonDigits"
proof -
  have "compareNonDigits = (\<lambda>a b. cmp3 (nkey a) (nkey b))"
    by (intro ext) (simp add: compareNonDigits_def compareNonDigits_loop_key)
  then show ?thesis using tpo_cmp3 [of nkey] by simp
qed

lemma tpo_compareDigits: "tpo compareDigits"
  by (rule tpoI) (auto simp: compareDigits_def Let_def split: if_splits)

lemma tpo_roundCmp: "tpo roundCmp"
  unfolding roundCmp_def
  by (intro tpo_thenCmp tpo_on [OF tpo_compareNonDigits] tpo_on [OF tpo_compareDigits])

lemma dropNonDigits_eq: "dropNonDigits s = dropWhile (\<lambda>c. \<not> isDigit (rune_of c)) s"
  by (simp add: dropNonDigits_def leadingNonDigits_def dropWhile_eq_drop)

lemma dropDigits_eq: "dropDigits s = dropWhile (\<lambda>c. isDigit (rune_of c)) s"
  by (simp add: dropDigits_def leadingDigits_def dropWhile_eq_drop)

lemma leadingNonDigits_dropNonDigits [simp]: "leadingNonDigits (dropNonDigits s) = []"
  by (induction s) (auto simp: dropNonDigits_eq leadingNonDigits_def)

lemma compareNonDigits_Nil [simp]: "compareNonDigits [] [] = 0"
  using tpo_refl [OF tpo_compareNonDigits] by simp

lemma compareDigits_Nil [simp]: "compareDigits [] [] = 0"
  using tpo_refl [OF tpo_compareDigits] by simp

lemma comparePart_Nil [simp]: "comparePart [] [] = 0"
  by (subst comparePart.simps) simp

lemma length_afterRound: "s \<noteq> [] \<Longrightarrow> length (afterRound s) < length s"
proof (cases s)
  case Nil
  assume "s \<noteq> []"
  with Nil show ?thesis by simp
next
  case (Cons c cs)
  show ?thesis
  proof (cases "isDigit (rune_of c)")
    case True
    then have "afterRound s = dropWhile (\<lambda>c. isDigit (rune_of c)) cs"
      using Cons by (simp add: afterRound_def dropNonDigits_eq dropDigits_eq)
    then show ?thesis
      using Cons length_dropWhile_le [of "\<lambda>c. isDigit (rune_of c)" cs] by simp
  next
    case False
    then have "afterRound s =
        dropWhile (\<lambda>c. isDigit (rune_of c)) (dropWhile (\<lambda>c. \<not> isDigit (rune_of c)) cs)"
      using Cons by (simp add: afterRound_def dropNonDigits_eq dropDigits_eq)
    then show ?thesis
      using Cons
        length_dropWhile_le [of "\<lambda>c. isDigit (rune_of c)" "dropWhile (\<lambda>c. \<not> isDigit (rune_of c)) cs"]
        length_dropWhile_le [of "\<lambda>c. \<not> isDigit (rune_of c)" cs]
      by simp
  qed
qed

lemma afterRound_Nil [simp]: "afterRound [] = []"
  by (simp add: afterRound_def dropNonDigits_eq dropDigits_eq)

lemma comparePart_digits:
  assumes "leadingNonDigits a = []" "leadingNonDigits b = []"
  shows "comparePart a b =
     (if compareDigits (leadingDigits a) (leadingDigits b) \<noteq> 0
      then compareDigits (leadingDigits a) (leadingDigits b)
      else comparePart (dropDigits a) (dropDigits b))"
proof (cases "a = [] \<and> b = []")
  case True
  then show ?thesis by (simp add: dropDigits_eq leadingDigits_def)
next
  case False
  have "leadingDigits a \<noteq> [] \<or> leadingDigits b \<noteq> []"
    using False assms
    by (cases a; cases b) (auto simp: leadingNonDigits_def leadingDigits_def split: if_splits)
  then show ?thesis
    using False assms by (subst comparePart.simps) (auto simp: dropDigits_def)
qed

lemma comparePart_round:
  "comparePart a b =
     (if roundCmp a b \<noteq> 0 then roundCmp a b
      else comparePart (afterRound a) (afterRound b))"
proof (cases "leadingNonDigits a \<noteq> [] \<or> leadingNonDigits b \<noteq> []")
  case True
  then have ne: "0 < length a \<or> 0 < length b"
    by (auto simp: leadingNonDigits_def)
  have "comparePart a b =
      (if compareNonDigits (leadingNonDigits a) (leadingNonDigits b) \<noteq> 0
       then compareNonDigits (leadingNonDigits a) (leadingNonDigits b)
       else comparePart (dropNonDigits a) (dropNonDigits b))"
    using True ne by (subst comparePart.simps) (simp add: dropNonDigits_def)
  then show ?thesis
    by (simp add: roundCmp_def thenCmp_def afterRound_def comparePart_digits)
next
  case False
  then have "dropNonDigits a = a" "dropNonDigits b = b"
    by (simp_all add: dropNonDigits_def)
  with False show ?thesis
    by (simp add: roundCmp_def thenCmp_def afterRound_def comparePart_digits)
qed

lemma afterRound_measure2:
  "\<not> (a = [] \<and> b = []) \<Longrightarrow>
   length (afterRound a) + length (afterRound b) < length a + length b"
  using length_afterRound [of a] length_afterRound [of b]
  by (cases "a = []"; cases "b = []") auto

lemma comparePart_range: "comparePart a b = - 1 \<or> comparePart a b = 0 \<or> comparePart a b = 1"
proof (induction "length a + length b" arbitrary: a b rule: less_induct)
  case less
  show ?case
  proof (cases "a = [] \<and> b = []")
    case True
    then show ?thesis by simp
  next
    case False
    note IH = less [OF afterRound_measure2 [OF False]]
    have eq: "comparePart a b =
        (if roundCmp a b \<noteq> 0 then roundCmp a b else comparePart (afterRound a) (afterRound b))"
      by (rule comparePart_round)
    from IH tpo_range [OF tpo_roundCmp, of a b] show ?thesis
      unfolding eq by auto
  qed
qed

lemma comparePart_refl: "comparePart a a = 0"
proof (induction "length a" arbitrary: a rule: less_induct)
  case less
  show ?case
  proof (cases "a = []")
    case True
    then show ?thesis by simp
  next
    case False
    have eq: "comparePart a a =
        (if roundCmp a a \<noteq> 0 then roundCmp a a else comparePart (afterRound a) (afterRound a))"
      by (rule comparePart_round)
    from less [OF length_afterRound [OF False]] tpo_refl [OF tpo_roundCmp, of a] show ?thesis
      unfolding eq by simp
  qed
qed

lemma comparePart_sym: "comparePart a b = - comparePart b a"
proof (induction "length a + length b" arbitrary: a b rule: less_induct)
  case less
  show ?case
  proof (cases "a = [] \<and> b = []")
    case True
    then show ?thesis by simp
  next
    case False
    note IH = less [OF afterRound_measure2 [OF False]]
    have eq: "comparePart a b =
        (if roundCmp a b \<noteq> 0 then roundCmp a b else comparePart (afterRound a) (afterRound b))"
      "comparePart b a =
        (if roundCmp b a \<noteq> 0 then roundCmp b a else comparePart (afterRound b) (afterRound a))"
      by (rule comparePart_round)+
    from IH tpo_sym [OF tpo_roundCmp, of a b] show ?thesis
      unfolding eq by simp
  qed
qed

lemma comparePart_trans:
  "comparePart a b \<le> 0 \<Longrightarrow> comparePart b c \<le> 0 \<Longrightarrow> comparePart a c \<le> 0"
proof (induction "length a + length b + length c" arbitrary: a b c rule: less_induct)
  case less
  note r = tpo_roundCmp
  have eq_ab: "comparePart a b =
      (if roundCmp a b \<noteq> 0 then roundCmp a b else comparePart (afterRound a) (afterRound b))"
    and eq_bc: "comparePart b c =
      (if roundCmp b c \<noteq> 0 then roundCmp b c else comparePart (afterRound b) (afterRound c))"
    and eq_ac: "comparePart a c =
      (if roundCmp a c \<noteq> 0 then roundCmp a c else comparePart (afterRound a) (afterRound c))"
    by (rule comparePart_round)+
  show ?case
  proof (cases "a = [] \<and> b = [] \<and> c = []")
    case True
    then show ?thesis by simp
  next
    case False
    then have m: "length (afterRound a) + length (afterRound b) + length (afterRound c)
        < length a + length b + length c"
      using length_afterRound [of a] length_afterRound [of b] length_afterRound [of c]
      by (cases "a = []"; cases "b = []"; cases "c = []") auto
    from less.prems(1) have ab: "roundCmp a b \<le> 0"
      unfolding eq_ab by (simp split: if_splits)
    from less.prems(2) have bc: "roundCmp b c \<le> 0"
      unfolding eq_bc by (simp split: if_splits)
    show ?thesis
    proof (cases "roundCmp a b < 0 \<or> roundCmp b c < 0")
      case True
      then have "roundCmp a c < 0"
        using tpo_lt_le [OF r, of a b c] tpo_le_lt [OF r, of a b c] ab bc by blast
      then show ?thesis unfolding eq_ac by simp
    next
      case False
      with ab bc have z: "roundCmp a b = 0" "roundCmp b c = 0" by simp_all
      then have ac: "roundCmp a c = 0" by (rule tpo_eq_eq [OF r])
      from z less.prems have "comparePart (afterRound a) (afterRound b) \<le> 0"
        "comparePart (afterRound b) (afterRound c) \<le> 0"
        unfolding eq_ab eq_bc by simp_all
      from less.hyps [OF m this] ac show ?thesis
        unfolding eq_ac by simp
    qed
  qed
qed

lemma tpo_comparePart: "tpo comparePart"
  by (rule tpoI) (fact comparePart_range comparePart_refl comparePart_sym comparePart_trans)+

lemma Compare_thenCmp:
  "Compare =
     thenCmp (\<lambda>a b. cmp3 (epochOf a) (epochOf b))
       (thenCmp (\<lambda>a b. comparePart (upstreamOf a) (upstreamOf b))
                (\<lambda>a b. comparePart (revisionOf a) (revisionOf b)))"
  by (intro ext)
     (auto simp: Compare_def thenCmp_def cmp3_def epochOf_def upstreamOf_def revisionOf_def
           split: prod.splits)

lemma tpo_Compare: "tpo Compare"
  unfolding Compare_thenCmp
  by (intro tpo_thenCmp tpo_cmp3 tpo_on [OF tpo_comparePart])


lemma rune_of_tilde [simp]: "rune_of (CHR ''~'') = 126"
  by (simp add: rune_of_def)

lemma order_126 [simp]: "order 126 = - 1"
  by (simp add: order_def)







section \<open>Lemmas about the package manager\<close>

lemma splitOn_length: "l \<in> set (splitOn c s) \<Longrightarrow> length l \<le> length s"
proof (induction s arbitrary: l)
  case Nil
  then show ?case by simp
next
  case (Cons x xs)
  show ?case
  proof (cases "x = c")
    case True
    with Cons.prems have "l = [] \<or> l \<in> set (splitOn c xs)" by simp
    then show ?thesis using Cons.IH [of l] by auto
  next
    case False
    show ?thesis
    proof (cases "splitOn c xs")
      case Nil
      with False Cons.prems show ?thesis by simp
    next
      case (Cons w ws)
      with False Cons.prems have "l = x # w \<or> l \<in> set ws" by simp
      moreover have "length w \<le> length xs" "\<And>l. l \<in> set ws \<Longrightarrow> length l \<le> length xs"
        using Cons.IH Cons by simp_all
      ultimately show ?thesis by (auto intro: le_SucI)
    qed
  qed
qed

lemma rawLines_length: "l \<in> set (rawLines data) \<Longrightarrow> length l \<le> length data"
  by (auto simp: rawLines_def Let_def dest: splitOn_length in_set_butlastD split: if_splits)

lemma scanLines_short:
  assumes "length data < limit"
  shows "scanLines limit data = (map dropCR (rawLines data), False)"
proof -
  have fits: "\<forall>l \<in> set (rawLines data). length l < limit"
    using rawLines_length [of _ data] assms by fastforce
  have tw: "takeWhile (\<lambda>l. length l < limit) (rawLines data) = rawLines data"
    using fits by (subst takeWhile_eq_all_conv) simp
  have la: "list_all (\<lambda>l. length l < limit) (rawLines data)"
    using fits by (simp add: list_all_iff)
  show ?thesis
    unfolding scanLines_def Let_def tw using la by simp
qed

lemma ParseControl_short:
  assumes "length data < maxTokenSize"
  shows "ParseControl data =
     (case controlLoop (map dropCR (rawLines data)) [] [] [] of
        Inl e \<Rightarrow> Inl e
      | Inr (current, paragraphs) \<Rightarrow> Inr (flush current paragraphs))"
  by (simp add: ParseControl_def scanLines_short [OF assms] split: sum.splits prod.splits)

lemma firstError_simps [simp]:
  "firstError [] = None"
  "firstError (Inl err # os) = Some err"
  "firstError (Inr x # os) = firstError os"
  by (simp_all add: firstError_def)

lemma collect_eq:
  "collect outcomes result firstErr =
     (result @ map projr (filter (\<lambda>x. \<not> isl x) outcomes),
      (case firstErr of Some err \<Rightarrow> Some err | None \<Rightarrow> firstError outcomes))"
proof (induction outcomes arbitrary: result firstErr)
  case Nil
  then show ?case by (simp split: option.splits)
next
  case (Cons x xs)
  then show ?case by (cases x) (simp_all split: option.splits)
qed

lemma firstError_None_iff: "firstError outcomes = None \<longleftrightarrow> (\<forall>x \<in> set outcomes. \<not> isl x)"
proof (induction outcomes)
  case Nil
  then show ?case by simp
next
  case (Cons x xs)
  then show ?case by (cases x) simp_all
qed

lemma firstError_Some:
  "firstError outcomes = Some err \<Longrightarrow> find isl outcomes = Some (Inl err)"
proof (induction outcomes)
  case Nil
  then show ?case by simp
next
  case (Cons x xs)
  then show ?case by (cases x) simp_all
qed

lemma Update_eq:
  "Update env sched (Some c) cacheDir (Some cl) =
     (let runs = map (\<lambda>feed. fetchFeed env feed cacheDir (Some cl))
                     (completionOrder sched (Feeds c))
      in (map fst runs,
          case firstError (map snd runs) of
            Some err \<Rightarrow> Inl err
          | None \<Rightarrow> Inr (map projr (map snd runs))))"
proof -
  have "filter (\<lambda>x. \<not> isl x) xs = xs" if "firstError xs = None" for xs :: "(error + Index) list"
    using that by (simp add: firstError_None_iff)
  then show ?thesis
    by (auto simp: Update_def Let_def collect_eq split: option.splits)
qed

lemma completionOrder_mset: "mset (completionOrder sched feeds) = mset feeds"
proof (cases "sort sched = [0..<length feeds]")
  case True
  have "mset sched = mset (sort sched)" by simp
  then have e: "mset sched = mset [0..<length feeds]" by (simp only: True)
  have "mset (map (\<lambda>i. feeds ! i) sched) = image_mset (\<lambda>i. feeds ! i) (mset sched)"
    by (simp only: mset_map)
  also have "\<dots> = image_mset (\<lambda>i. feeds ! i) (mset [0..<length feeds])"
    by (simp only: e)
  also have "\<dots> = mset (map (\<lambda>i. feeds ! i) [0..<length feeds])"
    by (simp only: mset_map)
  also have "\<dots> = mset feeds" by (simp only: map_nth)
  finally show ?thesis using True by (simp add: completionOrder_def)
next
  case False
  then show ?thesis by (simp add: completionOrder_def)
qed

lemma completionOrder_set: "set (completionOrder sched feeds) = set feeds"
  using completionOrder_mset [of sched feeds] by (metis set_mset_mset)

lemma completionOrder_identity: "completionOrder [0..<length feeds] feeds = feeds"
  by (simp add: completionOrder_def map_nth sorted_sort_id)

lemma fetchFeed_feed: "fetchFeed env feed cacheDir client = (ops, Inr idx) \<Longrightarrow> idx_Feed idx = feed"
  by (auto simp: fetchFeed_def Let_def osWriteFile_def
           split: if_splits sum.splits gzipResult.splits option.splits prod.splits)

lemma fetchFeed_ops:
  "fetchFeed env feed cacheDir client = (ops, Inr idx) \<Longrightarrow> cacheDir \<noteq> [] \<Longrightarrow>
   \<exists>data. ops = [WriteFile (filepath_Join cacheDir (feed_Name feed @ ''.Packages'')) data mode_0644]"
  by (auto simp: fetchFeed_def Let_def osWriteFile_def
           split: if_splits sum.splits gzipResult.splits option.splits prod.splits)

lemma fetchFeed_exhausted:
  assumes "feed_URI feed \<noteq> []"
    and "GetBytes env client (trimSuffix (feed_URI feed) ''/'' @ ''/Packages.gz'') = Inl e1"
    and "GetBytes env client (trimSuffix (feed_URI feed) ''/'' @ ''/Packages'') = Inl e2"
  shows "fetchFeed env feed cacheDir client = ([], Inl (ErrFetchFeed (feed_Name feed) e2))"
  using assms by (simp add: fetchFeed_def Let_def)

lemma firstError_exists:
  "x \<in> set outcomes \<Longrightarrow> isl x \<Longrightarrow> \<exists>err. firstError outcomes = Some err"
  using firstError_None_iff [of outcomes] by (cases "firstError outcomes") auto

lemma findInIndexes_Some_iff:
  "findInIndexes idxs name = Some pkg \<longleftrightarrow>
     (\<exists>i < length idxs. mapGet (Packages (idxs ! i)) name = Some pkg \<and>
        (\<forall>j < i. mapGet (Packages (idxs ! j)) name = None))"
proof (induction idxs)
  case Nil
  then show ?case by simp
next
  case (Cons idx idxs)
  show ?case
  proof (cases "mapGet (Packages idx) name")
    case None
    have "(\<exists>i < length (idx # idxs). mapGet (Packages ((idx # idxs) ! i)) name = Some pkg \<and>
            (\<forall>j < i. mapGet (Packages ((idx # idxs) ! j)) name = None)) \<longleftrightarrow>
          (\<exists>i < length idxs. mapGet (Packages (idxs ! i)) name = Some pkg \<and>
            (\<forall>j < i. mapGet (Packages (idxs ! j)) name = None))" (is "?L \<longleftrightarrow> ?R")
    proof
      assume ?L
      then obtain i where i: "i < length (idx # idxs)"
        "mapGet (Packages ((idx # idxs) ! i)) name = Some pkg"
        "\<forall>j < i. mapGet (Packages ((idx # idxs) ! j)) name = None" by blast
      with None obtain k where k: "i = Suc k" by (cases i) auto
      with i have "k < length idxs" "mapGet (Packages (idxs ! k)) name = Some pkg" by simp_all
      moreover have "\<forall>j < k. mapGet (Packages (idxs ! j)) name = None"
      proof (intro allI impI)
        fix j assume "j < k"
        then have "Suc j < i" using k by simp
        with i(3) have "mapGet (Packages ((idx # idxs) ! Suc j)) name = None" by blast
        then show "mapGet (Packages (idxs ! j)) name = None" by simp
      qed
      ultimately show ?R by blast
    next
      assume ?R
      then obtain k where k: "k < length idxs" "mapGet (Packages (idxs ! k)) name = Some pkg"
        "\<forall>j < k. mapGet (Packages (idxs ! j)) name = None" by blast
      have "\<forall>j < Suc k. mapGet (Packages ((idx # idxs) ! j)) name = None"
      proof (intro allI impI)
        fix j assume "j < Suc k"
        then show "mapGet (Packages ((idx # idxs) ! j)) name = None"
          using None k(3) by (cases j) simp_all
      qed
      with k(1,2) show ?L by (intro exI [of _ "Suc k"]) simp
    qed
    with None Cons.IH show ?thesis by simp
  next
    case (Some p)
    have "(\<exists>i < length (idx # idxs). mapGet (Packages ((idx # idxs) ! i)) name = Some pkg \<and>
            (\<forall>j < i. mapGet (Packages ((idx # idxs) ! j)) name = None)) \<longleftrightarrow> p = pkg"
      (is "?L \<longleftrightarrow> _")
    proof
      assume ?L
      then obtain i where i: "mapGet (Packages ((idx # idxs) ! i)) name = Some pkg"
        "\<forall>j < i. mapGet (Packages ((idx # idxs) ! j)) name = None" by blast
      have "i = 0"
      proof (rule ccontr)
        assume "i \<noteq> 0"
        then have "0 < i" by simp
        with i(2) have "mapGet (Packages ((idx # idxs) ! 0)) name = None" by blast
        with Some show False by simp
      qed
      with i(1) Some show "p = pkg" by simp
    next
      assume "p = pkg"
      with Some show ?L by (intro exI [of _ 0]) simp
    qed
    with Some show ?thesis by simp
  qed
qed

lemma fooText_parse:
  "ParseControl (fooText ''1.0'') = Inr [\<lparr>Fields = [(''Package'', ''foo''), (''Version'', ''1.0'')]\<rparr>]"
  "ParseControl (fooText ''2.0'') = Inr [\<lparr>Fields = [(''Package'', ''foo''), (''Version'', ''2.0'')]\<rparr>]"
proof -
  have l: "length (fooText ''1.0'') < maxTokenSize" "length (fooText ''2.0'') < maxTokenSize"
    by (simp_all add: fooText_def maxTokenSize_def)
  have c1: "controlLoop (map dropCR (rawLines (fooText ''1.0''))) [] [] [] =
      Inr ([(''Package'', ''foo''), (''Version'', ''1.0'')], [])"
    by code_simp
  have c2: "controlLoop (map dropCR (rawLines (fooText ''2.0''))) [] [] [] =
      Inr ([(''Package'', ''foo''), (''Version'', ''2.0'')], [])"
    by code_simp
  show "ParseControl (fooText ''1.0'') = Inr [\<lparr>Fields = [(''Package'', ''foo''), (''Version'', ''1.0'')]\<rparr>]"
    by (simp add: ParseControl_short [OF l(1)] c1 flush_def)
  show "ParseControl (fooText ''2.0'') = Inr [\<lparr>Fields = [(''Package'', ''foo''), (''Version'', ''2.0'')]\<rparr>]"
    by (simp add: ParseControl_short [OF l(2)] c2 flush_def)
qed

lemma fooText_index:
  "indexParagraphs feed [\<lparr>Fields = [(''Package'', ''foo''), (''Version'', ''1.0'')]\<rparr>] [] =
     [(''foo'', fooPackage feed ''1.0'')]"
  "indexParagraphs feed [\<lparr>Fields = [(''Package'', ''foo''), (''Version'', ''2.0'')]\<rparr>] [] =
     [(''foo'', fooPackage feed ''2.0'')]"
  by code_simp+

lemma example_GetBytes:
  "GetBytes exampleEnv (downloader_New 0) ''http://example.invalid/base/Packages.gz'' =
     Inl (ErrUnexpectedStatus ''404 Not Found'' ''http://example.invalid/base/Packages.gz'')"
  "GetBytes exampleEnv (downloader_New 0) ''http://example.invalid/base/Packages'' = Inr (fooText ''1.0'')"
  "GetBytes exampleEnv (downloader_New 0) ''http://example.invalid/extra/Packages.gz'' = Inr (fooText ''2.0'')"
  by (simp_all add: GetBytes_def exampleEnv_def downloader_New_def okResponse_def notFoundResponse_def)

lemma example_paths:
  "filepath_Join ''/tmp'' ''base.Packages'' = ''/tmp/base.Packages''"
  "filepath_Join ''/tmp'' ''extra.Packages'' = ''/tmp/extra.Packages''"
  "filepath_Join ''/'' ''usr/lib/opkg/status'' = ''/usr/lib/opkg/status''"
  "filepath_Dir ''/tmp/base.Packages'' = ''/tmp''"
  by code_simp+

lemma example_fetch_base:
  "fetchFeed exampleEnv baseFeed ''/tmp'' (downloader_New 0) =
     ([WriteFile ''/tmp/base.Packages'' (fooText ''1.0'') mode_0644], Inr (fooIndex baseFeed ''1.0''))"
proof -
  have u: "trimSuffix (feed_URI baseFeed) ''/'' = ''http://example.invalid/base''"
    "feed_Name baseFeed = ''base''" "feed_URI baseFeed \<noteq> []"
    by (simp_all add: baseFeed_def trimSuffix_def hasSuffix_def)
  have g: "\<not> hasPrefix (fooText ''1.0'') [CHR 0x1F, CHR 0x8B]"
    by (simp add: hasPrefix_def fooText_def)
  have e: "fsFail exampleEnv op = None" "timeNow exampleEnv feed = 0" for op feed
    by (simp_all add: exampleEnv_def)
  show ?thesis
    unfolding fetchFeed_def Let_def
    by (simp add: u example_GetBytes g fooText_parse fooText_index example_paths osWriteFile_def e
                  fooIndex_def del: indexParagraphs.simps)
qed

lemma example_fetch_extra:
  "fetchFeed exampleEnv extraFeed ''/tmp'' (downloader_New 0) =
     ([WriteFile ''/tmp/extra.Packages'' (fooText ''2.0'') mode_0644], Inr (fooIndex extraFeed ''2.0''))"
proof -
  have u: "trimSuffix (feed_URI extraFeed) ''/'' = ''http://example.invalid/extra''"
    "feed_Name extraFeed = ''extra''" "feed_URI extraFeed \<noteq> []"
    by (simp_all add: extraFeed_def trimSuffix_def hasSuffix_def)
  have g: "\<not> hasPrefix (fooText ''2.0'') [CHR 0x1F, CHR 0x8B]"
    by (simp add: hasPrefix_def fooText_def)
  have e: "fsFail exampleEnv op = None" "timeNow exampleEnv feed = 0" for op feed
    by (simp_all add: exampleEnv_def)
  show ?thesis
    unfolding fetchFeed_def Let_def
    by (simp add: u example_GetBytes g fooText_parse fooText_index example_paths osWriteFile_def e
                  fooIndex_def del: indexParagraphs.simps)
qed



lemma example_order:
  "completionOrder [0, 1] [baseFeed, extraFeed] = [baseFeed, extraFeed]"
  "completionOrder [1, 0] [baseFeed, extraFeed] = [extraFeed, baseFeed]"
  by (simp_all add: completionOrder_def upt_rec)

lemma example_Update:
  "Manager_Update exampleEnv [0, 1] exampleManager =
     ([[WriteFile ''/tmp/base.Packages'' (fooText ''1.0'') mode_0644],
       [WriteFile ''/tmp/extra.Packages'' (fooText ''2.0'') mode_0644]],
      None,
      exampleManager\<lparr>m_indexes := \<lparr>indexes = [fooIndex baseFeed ''1.0'', fooIndex extraFeed ''2.0'']\<rparr>\<rparr>)"
  "Manager_Update exampleEnv [1, 0] exampleManager =
     ([[WriteFile ''/tmp/extra.Packages'' (fooText ''2.0'') mode_0644],
       [WriteFile ''/tmp/base.Packages'' (fooText ''1.0'') mode_0644]],
      None,
      exampleManager\<lparr>m_indexes := \<lparr>indexes = [fooIndex extraFeed ''2.0'', fooIndex baseFeed ''1.0'']\<rparr>\<rparr>)"
proof -
  have m: "m_cfg exampleManager = Some exampleConfig" "m_cache exampleManager = ''/tmp''"
    "m_client exampleManager = downloader_New 0" "Feeds exampleConfig = [baseFeed, extraFeed]"
    by (simp_all add: exampleManager_def exampleConfig_def)
  have d: "downloader_New 0 = Some \<lparr>timeout = 30\<rparr>"
    by (simp add: downloader_New_def)
  have u: "Update exampleEnv sched (Some exampleConfig) ''/tmp'' (downloader_New 0) =
      (map fst (map (\<lambda>feed. fetchFeed exampleEnv feed ''/tmp'' (downloader_New 0))
                    (completionOrder sched [baseFeed, extraFeed])),
       case firstError (map snd (map (\<lambda>feed. fetchFeed exampleEnv feed ''/tmp'' (downloader_New 0))
                    (completionOrder sched [baseFeed, extraFeed]))) of
         Some err \<Rightarrow> Inl err
       | None \<Rightarrow> Inr (map projr (map snd (map (\<lambda>feed. fetchFeed exampleEnv feed ''/tmp'' (downloader_New 0))
                    (completionOrder sched [baseFeed, extraFeed])))))" for sched
    unfolding d by (simp add: Update_eq Let_def m(4))
  have u01: "Update exampleEnv [0, 1] (Some exampleConfig) ''/tmp'' (downloader_New 0) =
      ([[WriteFile ''/tmp/base.Packages'' (fooText ''1.0'') mode_0644],
        [WriteFile ''/tmp/extra.Packages'' (fooText ''2.0'') mode_0644]],
       Inr [fooIndex baseFeed ''1.0'', fooIndex extraFeed ''2.0''])"
    by (simp only: u example_order) (simp add: example_fetch_base example_fetch_extra)
  have u10: "Update exampleEnv [1, 0] (Some exampleConfig) ''/tmp'' (downloader_New 0) =
      ([[WriteFile ''/tmp/extra.Packages'' (fooText ''2.0'') mode_0644],
        [WriteFile ''/tmp/base.Packages'' (fooText ''1.0'') mode_0644]],
       Inr [fooIndex extraFeed ''2.0'', fooIndex baseFeed ''1.0''])"
    by (simp only: u example_order) (simp add: example_fetch_base example_fetch_extra)
  show "Manager_Update exampleEnv [0, 1] exampleManager =
     ([[WriteFile ''/tmp/base.Packages'' (fooText ''1.0'') mode_0644],
       [WriteFile ''/tmp/extra.Packages'' (fooText ''2.0'') mode_0644]],
      None,
      exampleManager\<lparr>m_indexes := \<lparr>indexes = [fooIndex baseFeed ''1.0'', fooIndex extraFeed ''2.0'']\<rparr>\<rparr>)"
    by (simp only: Manager_Update_def m(1-3) u01) (simp add: NewIndexSet_def)
  show "Manager_Update exampleEnv [1, 0] exampleManager =
     ([[WriteFile ''/tmp/extra.Packages'' (fooText ''2.0'') mode_0644],
       [WriteFile ''/tmp/base.Packages'' (fooText ''1.0'') mode_0644]],
      None,
      exampleManager\<lparr>m_indexes := \<lparr>indexes = [fooIndex extraFeed ''2.0'', fooIndex baseFeed ''1.0'']\<rparr>\<rparr>)"
    by (simp only: Manager_Update_def m(1-3) u10) (simp add: NewIndexSet_def)
qed

lemma Manager_Update_indexesLoaded:
  "m_indexesLoaded (snd (snd (Manager_Update env sched m))) = m_indexesLoaded m"
  by (simp add: Manager_Update_def split: prod.splits sum.splits)

lemma New_indexesLoaded: "New env depth cfgPath = Some (ops, Inr m) \<Longrightarrow> \<not> m_indexesLoaded m"
  by (auto simp: New_def split: sum.splits prod.splits option.splits)

lemma updates_indexesLoaded: "m_indexesLoaded (updates env scheds m) = m_indexesLoaded m"
  by (induction scheds arbitrary: m) (simp_all add: Manager_Update_indexesLoaded)

lemma never_loaded:
  "New env depth cfgPath = Some (ops, Inr m) \<Longrightarrow> \<not> m_indexesLoaded (updates env scheds m)"
  by (simp add: updates_indexesLoaded New_indexesLoaded)


lemma StatusPath_cases:
  "StatusPath (Some c) =
     (case Options c ''status'' of
        Some p \<Rightarrow> if p \<noteq> [] then Inr p
                 else (case find (\<lambda>dest. dest_Name dest = ''root'') (Destinations c) of
                         Some dest \<Rightarrow> Inr (filepath_Join (dest_Path dest) ''usr/lib/opkg/status'')
                       | None \<Rightarrow> Inl ErrStatusPathNotConfigured)
      | None \<Rightarrow> (case find (\<lambda>dest. dest_Name dest = ''root'') (Destinations c) of
                   Some dest \<Rightarrow> Inr (filepath_Join (dest_Path dest) ''usr/lib/opkg/status'')
                 | None \<Rightarrow> Inl ErrStatusPathNotConfigured))"
  by (simp add: StatusPath_def FindOption_def split: option.splits)

lemma upgradable_set:
  "set (upgradable m patterns entries) =
     {\<lparr>uc_Name = entry_Name entry, uc_Installed = entry_Version entry,
        uc_Available = pkg_Version pkg, uc_Description = firstLine (pkg_Description pkg)\<rparr>
      | entry pkg.
        entry \<in> set entries \<and> matchesAny (entry_Name entry) patterns \<and>
        Find (m_indexes m) (entry_Name entry) = Some pkg \<and>
        Compare (entry_Version entry) (pkg_Version pkg) < 0}"
proof (induction entries)
  case Nil
  then show ?case by simp
next
  case (Cons entry entries)
  show ?case
  proof (cases "matchesAny (entry_Name entry) patterns")
    case False
    with Cons show ?thesis by auto
  next
    case True
    show ?thesis
    proof (cases "Find (m_indexes m) (entry_Name entry)")
      case None
      with True Cons show ?thesis by auto
    next
      case (Some pkg)
      show ?thesis
      proof (cases "Compare (entry_Version entry) (pkg_Version pkg) < 0")
        case lt: True
        with True Some Cons show ?thesis by (auto simp: not_le)
      next
        case ge: False
        with True Some Cons show ?thesis by (auto simp: not_less)
      qed
    qed
  qed
qed

lemma ListUpgradable_loaded:
  assumes "m_indexesLoaded m"
  shows "\<exists>cs. ListUpgradable m patterns = Inr cs \<and> sorted (map uc_Name cs) \<and>
     set cs =
       {\<lparr>uc_Name = entry_Name entry, uc_Installed = entry_Version entry,
          uc_Available = pkg_Version pkg, uc_Description = firstLine (pkg_Description pkg)\<rparr>
        | entry pkg.
          entry \<in> set (Entries (m_status m)) \<and> matchesAny (entry_Name entry) patterns \<and>
          Find (m_indexes m) (entry_Name entry) = Some pkg \<and>
          Compare (entry_Version entry) (pkg_Version pkg) < 0}"
  using assms
  by (simp add: ListUpgradable_def ensureIndexesLoaded_def upgradable_set)

lemma status_Load:
  "Load (fileEnv statusDirText) 1 ''/etc/opkg/opkg.conf'' = Some (Inr statusDirConfig)"
  "Load (fileEnv statusTestText) 1 ''/etc/opkg/opkg.conf'' = Some (Inr statusTestConfig)"
proof -
  have o: "openFile (fileEnv content) ''/etc/opkg/opkg.conf'' = Inr (content, None)" for content
    by (simp add: fileEnv_def)
  have "length statusDirText < MaxScanTokenSize" "length statusTestText < MaxScanTokenSize"
    by (simp_all add: statusDirText_def statusTestText_def MaxScanTokenSize_def)
  then have s: "scanLines MaxScanTokenSize statusDirText = (map dropCR (rawLines statusDirText), False)"
    "scanLines MaxScanTokenSize statusTestText = (map dropCR (rawLines statusTestText), False)"
    by (simp_all only: scanLines_short)
  have r: "map dropCR (rawLines statusDirText) = [''option status_dir /usr/lib/opkg'']"
    "map dropCR (rawLines statusTestText) =
      [''option status_file /var/lib/opkg/status'', ''option status_dir /usr/lib/opkg'',
       ''dest root /'']"
    by code_simp+
  have t: "trimSpace ''option status_dir /usr/lib/opkg'' = ''option status_dir /usr/lib/opkg''"
    "trimSpace ''option status_file /var/lib/opkg/status'' = ''option status_file /var/lib/opkg/status''"
    "trimSpace ''dest root /'' = ''dest root /''"
    by code_simp+
  have f: "lineFields ''option status_dir /usr/lib/opkg'' = [''option'', ''status_dir'', ''/usr/lib/opkg'']"
    "lineFields ''option status_file /var/lib/opkg/status'' =
      [''option'', ''status_file'', ''/var/lib/opkg/status'']"
    "lineFields ''dest root /'' = [''dest'', ''root'', ''/'']"
    by code_simp+
  have h: "\<not> hasPrefix ''option status_dir /usr/lib/opkg'' ''#''"
    "\<not> hasPrefix ''option status_dir /usr/lib/opkg'' ''//''"
    "\<not> hasPrefix ''option status_file /var/lib/opkg/status'' ''#''"
    "\<not> hasPrefix ''option status_file /var/lib/opkg/status'' ''//''"
    "\<not> hasPrefix ''dest root /'' ''#''" "\<not> hasPrefix ''dest root /'' ''//''"
    by (simp_all add: hasPrefix_def)
  show "Load (fileEnv statusDirText) 1 ''/etc/opkg/opkg.conf'' = Some (Inr statusDirConfig)"
    by (simp add: Load_def o s r t f h directive_def emptyConfig_def statusDirConfig_def)
  show "Load (fileEnv statusTestText) 1 ''/etc/opkg/opkg.conf'' = Some (Inr statusTestConfig)"
    by (simp add: Load_def o s r t f h directive_def emptyConfig_def statusTestConfig_def)
qed

section \<open>Claims about the version order\<close>

text \<open>
  Claim C3. For all version strings \<open>a\<close> and \<open>b\<close>, \<open>Compare a b\<close> is one of \<open>-1\<close>, \<open>0\<close>, \<open>1\<close>,
  \<open>Compare a a = 0\<close>, and \<open>Compare a b = - Compare b a\<close>; and for all \<open>a\<close>, \<open>b\<close>, \<open>c\<close>, if
  \<open>Compare a b \<le> 0\<close> and \<open>Compare b c \<le> 0\<close> then \<open>Compare a c \<le> 0\<close>.
\<close>

theorem Compare_total_preorder:
  "Compare a b \<in> {- 1, 0, 1} \<and> Compare a a = 0 \<and> Compare a b = - Compare b a \<and>
   (Compare a b \<le> 0 \<and> Compare b c \<le> 0 \<longrightarrow> Compare a c \<le> 0)"
  using tpo_range [OF tpo_Compare, of a b] tpo_refl [OF tpo_Compare, of a]
    tpo_sym [OF tpo_Compare, of a b] tpo_trans [OF tpo_Compare, of a b c]
  by auto

theorem Compare_total_preorder_witness:
  "Compare ''1.0~beta'' ''1.0'' \<le> 0 \<and> Compare ''1.0'' ''1.0-1'' \<le> 0 \<and>
   Compare ''1.0~beta'' ''1.0-1'' \<le> 0"
proof -
  have h: "Compare ''1.0~beta'' ''1.0'' \<le> 0 \<and> Compare ''1.0'' ''1.0-1'' \<le> 0"
    by code_simp
  moreover from h have "Compare ''1.0~beta'' ''1.0-1'' \<le> 0"
    using Compare_total_preorder [of "''1.0~beta''" "''1.0''" "''1.0-1''"] by (elim conjE) simp
  ultimately show ?thesis by simp
qed




section \<open>Claims about the package manager\<close>


text \<open>
  Claim C2. When at least one feed fails after both \<open>Packages.gz\<close> and \<open>Packages\<close> could not be
  fetched, \<open>Update\<close> returns the first recorded failure (the first failure in the order of
  the critical sections), returns no index, and \<open>Manager.Update\<close> returns that error and
  leaves the manager, and so its index set, exactly as it was.
\<close>

theorem Update_failure:
  assumes "m_cfg m = Some c" and "m_client m = Some cl"
    and "feed \<in> set (Feeds c)" and "feed_URI feed \<noteq> []"
    and "isl (GetBytes env (Some cl) (trimSuffix (feed_URI feed) ''/'' @ ''/Packages.gz''))"
    and "isl (GetBytes env (Some cl) (trimSuffix (feed_URI feed) ''/'' @ ''/Packages''))"
  shows "\<exists>err.
           firstError (map (\<lambda>f. snd (fetchFeed env f (m_cache m) (m_client m)))
                           (completionOrder sched (Feeds c))) = Some err \<and>
           snd (Update env sched (m_cfg m) (m_cache m) (m_client m)) = Inl err \<and>
           snd (Manager_Update env sched m) = (Some err, m)"
proof -
  let ?order = "completionOrder sched (Feeds c)"
  let ?outcomes = "map (\<lambda>f. snd (fetchFeed env f (m_cache m) (Some cl))) ?order"
  from assms(5,6) obtain e1 e2 where
    "GetBytes env (Some cl) (trimSuffix (feed_URI feed) ''/'' @ ''/Packages.gz'') = Inl e1"
    "GetBytes env (Some cl) (trimSuffix (feed_URI feed) ''/'' @ ''/Packages'') = Inl e2"
    by (auto simp: isl_def)
  then have "fetchFeed env feed (m_cache m) (Some cl) = ([], Inl (ErrFetchFeed (feed_Name feed) e2))"
    using assms(4) by (rule fetchFeed_exhausted [rotated])
  moreover have "feed \<in> set ?order"
    using assms(3) by (simp add: completionOrder_set)
  ultimately have "Inl (ErrFetchFeed (feed_Name feed) e2) \<in> set ?outcomes"
    by force
  then obtain err where err: "firstError ?outcomes = Some err"
    using firstError_exists by fastforce
  have upd: "snd (Update env sched (Some c) (m_cache m) (Some cl)) = Inl err"
    using err by (simp add: Update_eq Let_def comp_def)
  then have "snd (Manager_Update env sched m) = (Some err, m)"
    using assms(1,2)
    by (cases "Update env sched (Some c) (m_cache m) (Some cl)") (simp add: Manager_Update_def)
  with err upd assms(1,2) show ?thesis by simp
qed

theorem Update_failure_witness:
  "snd (Manager_Update brokenEnv [1, 0] exampleManager) =
     (Some (ErrFetchFeed ''extra'' (ErrOS ''connection refused'')), exampleManager)"
proof -
  have g: "GetBytes brokenEnv (Some \<lparr>timeout = 30\<rparr>) ''http://example.invalid/extra/Packages.gz'' =
        Inl (ErrOS ''connection refused'')"
      "GetBytes brokenEnv (Some \<lparr>timeout = 30\<rparr>) ''http://example.invalid/extra/Packages'' =
        Inl (ErrOS ''connection refused'')"
    by (simp_all add: GetBytes_def brokenEnv_def exampleEnv_def)
  have u: "trimSuffix (feed_URI extraFeed) ''/'' = ''http://example.invalid/extra''"
    "feed_URI extraFeed \<noteq> []" "feed_Name extraFeed = ''extra''"
    by (simp_all add: extraFeed_def trimSuffix_def hasSuffix_def)
  have m: "m_cfg exampleManager = Some exampleConfig"
    "m_client exampleManager = Some \<lparr>timeout = 30\<rparr>" "m_cache exampleManager = ''/tmp''"
    "Feeds exampleConfig = [baseFeed, extraFeed]"
    by (simp_all add: exampleManager_def exampleConfig_def downloader_New_def)
  have f: "fetchFeed brokenEnv extraFeed ''/tmp'' (Some \<lparr>timeout = 30\<rparr>) =
      ([], Inl (ErrFetchFeed ''extra'' (ErrOS ''connection refused'')))"
    using fetchFeed_exhausted [of extraFeed brokenEnv "Some \<lparr>timeout = 30\<rparr>"] g u by simp
  have "extraFeed \<in> set (Feeds exampleConfig)" by (simp add: m)
  from Update_failure [OF m(1,2) this u(2), of brokenEnv "[1, 0]"] g u(1)
  obtain err where
    e: "firstError (map (\<lambda>f. snd (fetchFeed brokenEnv f (m_cache exampleManager) (m_client exampleManager)))
          (completionOrder [1, 0] (Feeds exampleConfig))) = Some err"
    and r: "snd (Manager_Update brokenEnv [1, 0] exampleManager) = (Some err, exampleManager)"
    by auto
  from e have "err = ErrFetchFeed ''extra'' (ErrOS ''connection refused'')"
    by (simp only: m example_order) (simp add: f)
  with r show ?thesis by simp
qed

text \<open>
  Claim C5. \<open>StatusPath\<close> prefers the option \<open>status\<close>, then \<open>status_file\<close>, then
  \<open>status_dir\<close> joined with \<open>status\<close>, then the path of the destination \<open>root\<close> joined with
  \<open>usr/lib/opkg/status\<close>, and fails only when none is present. The code looks at the option
  \<open>status\<close> and at the destination \<open>root\<close> only (\<open>StatusPath_cases\<close>). The theorem loads two
  configuration files and runs \<open>StatusPath\<close>: with the single line
  \<open>option status_dir /usr/lib/opkg\<close> it fails; with the options \<open>status_file\<close> and
  \<open>status_dir\<close> and the destination \<open>root\<close> at \<open>/\<close> (the file of the package's own test, which
  expects \<open>/var/lib/opkg/status\<close>) it returns \<open>/usr/lib/opkg/status\<close>; and with the two
  options and no destination it fails.
\<close>

theorem StatusPath_ignores_status_dir:
  "Load (fileEnv statusDirText) 1 ''/etc/opkg/opkg.conf'' = Some (Inr statusDirConfig) \<and>
   StatusPath (Some statusDirConfig) = Inl ErrStatusPathNotConfigured \<and>
   Load (fileEnv statusTestText) 1 ''/etc/opkg/opkg.conf'' = Some (Inr statusTestConfig) \<and>
   StatusPath (Some statusTestConfig) = Inr ''/usr/lib/opkg/status'' \<and>
   StatusPath (Some (statusTestConfig\<lparr>Destinations := []\<rparr>)) = Inl ErrStatusPathNotConfigured"
proof -
  have "StatusPath (Some statusDirConfig) = Inl ErrStatusPathNotConfigured"
    "StatusPath (Some statusTestConfig) = Inr ''/usr/lib/opkg/status''"
    "StatusPath (Some (statusTestConfig\<lparr>Destinations := []\<rparr>)) = Inl ErrStatusPathNotConfigured"
    by (simp_all add: StatusPath_cases statusDirConfig_def statusTestConfig_def example_paths)
  then show ?thesis
    by (intro conjI status_Load)
qed

text \<open>
  Claim C6. After a feed was fetched and parsed, its uncompressed bytes are written to
  \<open>cacheDir/<feedName>.Packages\<close> the way \<open>DownloadToFile\<close> writes: to the path with the
  suffix \<open>.tmp\<close>, then renamed. The code writes the bytes to that path, but with one direct
  write (\<open>fetchFeed_ops\<close>). The theorem runs both on the example: \<open>fetchFeed\<close> for the feed
  \<open>base\<close> performs the single operation "write \<open>/tmp/base.Packages\<close>", whereas
  \<open>DownloadToFile\<close> to the same path creates the directory, writes
  \<open>/tmp/base.Packages.tmp\<close> and renames it.
\<close>

theorem fetchFeed_cache_write_direct:
  "fst (fetchFeed exampleEnv baseFeed ''/tmp'' (downloader_New 0)) =
     [WriteFile ''/tmp/base.Packages'' (fooText ''1.0'') mode_0644] \<and>
   DownloadToFile exampleEnv (downloader_New 0) ''http://example.invalid/base/Packages''
       ''/tmp/base.Packages'' =
     ([MkdirAll ''/tmp'' mode_0755,
       WriteFile ''/tmp/base.Packages.tmp'' (fooText ''1.0'') mode_0644,
       Rename ''/tmp/base.Packages.tmp'' ''/tmp/base.Packages''], None)"
proof -
  have e: "fsFail exampleEnv op = None" for op
    by (simp add: exampleEnv_def)
  show ?thesis
    by (simp add: example_fetch_base DownloadToFile_def example_GetBytes example_paths e Let_def)
qed


text \<open>
  Claim C8. With the installed packages \<open>A\<close>, \<open>B\<close>, \<open>C\<close>, \<open>D\<close>, where \<open>A\<close> depends on \<open>B\<close>, \<open>B\<close> on
  \<open>C\<close> and \<open>D\<close> on \<open>A\<close>, \<open>ReverseDependencies\<close> over the field \<open>Depends\<close> with the single pattern
  \<open>C\<close> returns \<open>A\<close>, \<open>B\<close>, \<open>D\<close> in this order when it is recursive and \<open>B\<close> alone when it is not;
  the names of the matched packages become new targets, and what the matched packages
  depend on does not (for the pattern \<open>A\<close> the recursive answer is \<open>D\<close> alone). This holds both
  when the packages are known from the status database only and when an index offers them
  as well.
\<close>

theorem whatdepends_scenario:
  "ReverseDependencies abcdManager (abcdQueryFor ''C'' True) = Inr [''A'', ''B'', ''D''] \<and>
   ReverseDependencies abcdManager (abcdQueryFor ''C'' False) = Inr [''B''] \<and>
   ReverseDependencies abcdManager (abcdQueryFor ''A'' True) = Inr [''D''] \<and>
   ReverseDependencies (abcdManager\<lparr>m_indexes := \<lparr>indexes = [abcdIndex]\<rparr>\<rparr>)
     (abcdQueryFor ''C'' True) = Inr [''A'', ''B'', ''D''] \<and>
   ReverseDependencies (abcdManager\<lparr>m_indexes := \<lparr>indexes = [abcdIndex]\<rparr>\<rparr>)
     (abcdQueryFor ''C'' False) = Inr [''B'']"
  by code_simp

text \<open>
  Claim C9, as amended. After a successful \<open>Update\<close> the index list of the manager holds one
  index for each configured feed, in the order in which the goroutines of the feeds
  recorded their results: a permutation of the order of declaration, and that order itself
  when the goroutines finish in it. \<open>Find\<close> returns the package of the earliest index of
  this list that has the name. (The claim as stated promised the order of declaration for
  every run.)
\<close>

theorem Update_index_order:
  assumes "m_cfg m = Some c" and "Manager_Update env sched m = (ops, None, m')"
  shows "map idx_Feed (indexes (m_indexes m')) = completionOrder sched (Feeds c) \<and>
         mset (map idx_Feed (indexes (m_indexes m'))) = mset (Feeds c) \<and>
         (sched = [0..<length (Feeds c)] \<longrightarrow> map idx_Feed (indexes (m_indexes m')) = Feeds c) \<and>
         (\<forall>pkg. Find (m_indexes m') name = Some pkg \<longleftrightarrow>
            (\<exists>i < length (indexes (m_indexes m')).
               mapGet (Packages (indexes (m_indexes m') ! i)) name = Some pkg \<and>
               (\<forall>j < i. mapGet (Packages (indexes (m_indexes m') ! j)) name = None)))"
proof -
  let ?order = "completionOrder sched (Feeds c)"
  from assms(2) obtain idxs where
    upd: "Update env sched (m_cfg m) (m_cache m) (m_client m) = (ops, Inr idxs)"
    and m': "m' = m\<lparr>m_indexes := NewIndexSet idxs\<rparr>"
    by (auto simp: Manager_Update_def split: prod.splits sum.splits)
  from upd assms(1) obtain cl where cl: "m_client m = Some cl"
    by (cases "m_client m") (auto simp: Update_def)
  let ?runs = "map (\<lambda>feed. fetchFeed env feed (m_cache m) (Some cl)) ?order"
  from upd assms(1) cl have ok: "firstError (map snd ?runs) = None"
    and idxs: "idxs = map projr (map snd ?runs)"
    by (auto simp: Update_eq Let_def split: option.splits)
  have "idx_Feed (projr (snd (fetchFeed env feed (m_cache m) (Some cl)))) = feed"
    if "feed \<in> set ?order" for feed
  proof -
    from ok that have "\<not> isl (snd (fetchFeed env feed (m_cache m) (Some cl)))"
      by (auto simp: firstError_None_iff)
    then obtain o' idx where "fetchFeed env feed (m_cache m) (Some cl) = (o', Inr idx)"
      by (cases "fetchFeed env feed (m_cache m) (Some cl)";
          cases "snd (fetchFeed env feed (m_cache m) (Some cl))") auto
    then show ?thesis using fetchFeed_feed by fastforce
  qed
  then have order: "map idx_Feed idxs = ?order"
    unfolding idxs by (simp add: comp_def map_idI)
  have ix: "indexes (m_indexes m') = idxs"
    by (simp add: m' NewIndexSet_def)
  show ?thesis
    unfolding ix using order
    by (simp add: completionOrder_mset completionOrder_identity Find_def ix
                  findInIndexes_Some_iff)
qed

theorem Update_index_order_witness:
  "map idx_Feed (indexes (m_indexes
      (exampleManager\<lparr>m_indexes := \<lparr>indexes = [fooIndex extraFeed ''2.0'', fooIndex baseFeed ''1.0'']\<rparr>\<rparr>))) =
     completionOrder [1, 0] (Feeds exampleConfig) \<and>
   mset (map idx_Feed (indexes (m_indexes
      (exampleManager\<lparr>m_indexes := \<lparr>indexes = [fooIndex extraFeed ''2.0'', fooIndex baseFeed ''1.0'']\<rparr>\<rparr>)))) =
     mset (Feeds exampleConfig)"
proof -
  have c: "m_cfg exampleManager = Some exampleConfig"
    by (simp add: exampleManager_def)
  note r = Update_index_order [OF c example_Update(2), where name = "''foo''"]
  from conjunct1 [OF r] conjunct1 [OF conjunct2 [OF r]] show ?thesis
    by (rule conjI)
qed

text \<open>
  The claim C9 as stated fails: when the goroutine of the feed \<open>extra\<close> records its result
  before the one of \<open>base\<close>, the update succeeds with the index of \<open>extra\<close> first although
  \<open>base\<close> is declared first, and \<open>Find\<close> returns \<open>foo\<close> from \<open>extra\<close>; in the other order it
  returns \<open>foo\<close> from \<open>base\<close>.
\<close>

theorem Update_index_order_counterexample:
  "fst (snd (Manager_Update exampleEnv [1, 0] exampleManager)) = None \<and>
   map idx_Feed (indexes (m_indexes (snd (snd (Manager_Update exampleEnv [1, 0] exampleManager))))) =
     [extraFeed, baseFeed] \<and>
   Feeds exampleConfig = [baseFeed, extraFeed] \<and>
   baseFeed \<noteq> extraFeed \<and>
   map_option pkg_Feed
     (Find (m_indexes (snd (snd (Manager_Update exampleEnv [1, 0] exampleManager)))) ''foo'') =
     Some extraFeed \<and>
   map_option pkg_Feed
     (Find (m_indexes (snd (snd (Manager_Update exampleEnv [0, 1] exampleManager)))) ''foo'') =
     Some baseFeed"
proof -
  let ?m10 = "snd (snd (Manager_Update exampleEnv [1, 0] exampleManager))"
  let ?m01 = "snd (snd (Manager_Update exampleEnv [0, 1] exampleManager))"
  have i10: "indexes (m_indexes ?m10) = [fooIndex extraFeed ''2.0'', fooIndex baseFeed ''1.0'']"
    and i01: "indexes (m_indexes ?m01) = [fooIndex baseFeed ''1.0'', fooIndex extraFeed ''2.0'']"
    and ok: "fst (snd (Manager_Update exampleEnv [1, 0] exampleManager)) = None"
    by (simp_all only: example_Update) simp_all
  have f: "map_option pkg_Feed (Find s ''foo'') = Some a"
    if "indexes s = [fooIndex a v, fooIndex b w]" for s a b v w
    using that by (simp add: Find_def fooIndex_def mapGet_def fooPackage_def)
  have d: "baseFeed \<noteq> extraFeed"
    by (simp add: baseFeed_def extraFeed_def)
  have o: "map idx_Feed (indexes (m_indexes ?m10)) = [extraFeed, baseFeed]"
    by (simp only: i10) (simp add: fooIndex_def)
  have c: "Feeds exampleConfig = [baseFeed, extraFeed]"
    by (simp add: exampleConfig_def)
  show ?thesis
    by (intro conjI ok o c d f [OF i10] f [OF i01])
qed

text \<open>
  Claim C10. For a manager whose indexes are loaded, \<open>ReverseDependencies\<close> with an empty
  list of patterns returns the error "at least one package name or glob is required" and
  no names.
\<close>

theorem ReverseDependencies_no_patterns:
  "m_indexesLoaded m \<Longrightarrow> q_Patterns q = [] \<Longrightarrow> ReverseDependencies m q = Inl ErrNoPatterns"
  by (simp add: ReverseDependencies_def ensureIndexesLoaded_def)

theorem ReverseDependencies_no_patterns_witness:
  "ReverseDependencies abcdManager
     \<lparr>q_Field = ''Depends'', q_IncludeAll = True, q_Recursive = True, q_Patterns = []\<rparr> =
   Inl ErrNoPatterns"
  by (rule ReverseDependencies_no_patterns) (simp_all add: abcdManager_def)

end
